theory Spec2Isabelle
  imports Main
begin

section \<open>Values, exceptions and responses\<close>

text \<open>
  Request payloads, query-set rows and response bodies are JSON-like Python values.
  A Python \<open>dict\<close> keeps its keys in insertion order and holds every key once, so it
  is an association list that is only ever changed through \<open>setitem\<close>.
\<close>

datatype jval =
    JNull
  | JBool bool
  | JInt int
  | JStr string
  | JList "jval list"
  | JDict "(string \<times> jval) list"

type_synonym obj = "(string \<times> jval) list"

text \<open>Every exception class the view set raises, catches or lets through.\<close>

datatype exn =
    ParseError string
  | ValidationError string
  | IntegrityError string
  | ObjectDoesNotExist string
  | AssertionError string
  | TypeError string
  | KeyError string
  | OtherError string

text \<open>\<open>str(e)\<close>: every exception carries its message.\<close>

fun str_exn :: "exn \<Rightarrow> string" where
  "str_exn (ParseError m) = m"
| "str_exn (ValidationError m) = m"
| "str_exn (IntegrityError m) = m"
| "str_exn (ObjectDoesNotExist m) = m"
| "str_exn (AssertionError m) = m"
| "str_exn (TypeError m) = m"
| "str_exn (KeyError m) = m"
| "str_exn (OtherError m) = m"

text \<open>\<open>Response(data, status=...)\<close>; \<open>Response(status=...)\<close> has the body \<open>None\<close>.\<close>

record response =
  body :: jval
  status :: nat

definition HTTP_200_OK :: nat where "HTTP_200_OK = 200"
definition HTTP_201_CREATED :: nat where "HTTP_201_CREATED = 201"
definition HTTP_204_NO_CONTENT :: nat where "HTTP_204_NO_CONTENT = 204"
definition HTTP_400_BAD_REQUEST :: nat where "HTTP_400_BAD_REQUEST = 400"
definition HTTP_405_METHOD_NOT_ALLOWED :: nat where "HTTP_405_METHOD_NOT_ALLOWED = 405"

text \<open>Python truthiness of a payload value (\<open>if bulk_payload:\<close>).\<close>

fun truthy :: "jval \<Rightarrow> bool" where
  "truthy JNull = False"
| "truthy (JBool b) = b"
| "truthy (JInt i) = (i \<noteq> 0)"
| "truthy (JStr s) = (s \<noteq> [])"
| "truthy (JList xs) = (xs \<noteq> [])"
| "truthy (JDict kvs) = (kvs \<noteq> [])"

text \<open>\<open>d[k] = v\<close> on a dict: an existing key keeps its place, a new key goes last.\<close>

primrec setitem :: "(string \<times> 'v) list \<Rightarrow> string \<Rightarrow> 'v \<Rightarrow> (string \<times> 'v) list" where
  "setitem [] k v = [(k, v)]"
| "setitem (p # ps) k v = (if fst p = k then (k, v) # ps else p # setitem ps k v)"

section \<open>Strings\<close>

definition dq :: string where
  "dq = [CHR 0x22]"

definition nl :: string where
  "nl = [CHR 0x0A]"

text \<open>The single quote Python prints around a type's name.\<close>

definition sq :: string where
  "sq = [CHR 0x27]"

definition startswith :: "string \<Rightarrow> string \<Rightarrow> bool" where
  "startswith s p = (take (length p) s = p)"

definition endswith :: "string \<Rightarrow> string \<Rightarrow> bool" where
  "endswith s p = (length p \<le> length s \<and> drop (length s - length p) s = p)"

text \<open>\<open>p in s\<close> for strings: \<open>p\<close> occurs in \<open>s\<close> as a substring.\<close>

fun contains :: "string \<Rightarrow> string \<Rightarrow> bool" where
  "contains [] p = (p = [])"
| "contains (c # cs) p = (startswith (c # cs) p \<or> contains cs p)"

text \<open>\<open>s.split(c)\<close> for a one-character separator: never empty, \<open>''''.split(c) = ['''']\<close>.\<close>

fun split_on :: "char \<Rightarrow> string \<Rightarrow> string list" where
  "split_on c [] = [[]]"
| "split_on c (x # xs) =
     (if x = c then [] # split_on c xs
      else (x # hd (split_on c xs)) # tl (split_on c xs))"

section \<open>Query parameters\<close>

text \<open>
  \<open>QueryParams\<close> extends Django's \<open>QueryDict\<close>: every key holds a list of values, and
  \<open>lists()\<close> gives the keys in the order they were first seen.
\<close>

type_synonym query_params = "(string \<times> string list) list"

definition getlist :: "query_params \<Rightarrow> string \<Rightarrow> string list" where
  "getlist qp k = (case map_of qp k of None \<Rightarrow> [] | Some vs \<Rightarrow> vs)"

text \<open>\<open>QueryDict.get\<close>: the last value of the key, \<open>None\<close> for a missing key or an empty list.\<close>

definition qget :: "query_params \<Rightarrow> string \<Rightarrow> string option" where
  "qget qp k =
     (case map_of qp k of
        None \<Rightarrow> None
      | Some vs \<Rightarrow> (if vs = [] then None else Some (last vs)))"

definition appendlist :: "query_params \<Rightarrow> string \<Rightarrow> string \<Rightarrow> query_params" where
  "appendlist qp k v = setitem qp k (getlist qp k @ [v])"

text \<open>\<open>QueryParams.add\<close> with a list value appends every element to the key's flat list.\<close>

definition add_list :: "query_params \<Rightarrow> string \<Rightarrow> string list \<Rightarrow> query_params" where
  "add_list qp k vs = foldl (\<lambda>q v. appendlist q k v) qp vs"

definition delitem :: "query_params \<Rightarrow> string \<Rightarrow> query_params" where
  "delitem qp k = filter (\<lambda>p. fst p \<noteq> k) qp"

section \<open>Feature names\<close>

definition DEBUG :: string where "DEBUG = ''debug''"
definition SIDELOADING :: string where "SIDELOADING = ''sideloading''"
definition PATCH_ALL :: string where "PATCH_ALL = ''patch-all''"
definition INCLUDE :: string where "INCLUDE = ''include[]''"
definition EXCLUDE :: string where "EXCLUDE = ''exclude[]''"
definition FILTER :: string where "FILTER = ''filter{}''"
definition SORT :: string where "SORT = ''sort[]''"

section \<open>Object-type features\<close>

text \<open>
  The inner loop of \<open>_extract_object_params\<close> for a key ending in \<open>.in\<close>: a value
  \<open>[a,b,c]\<close> is spread into its alternatives.
\<close>

fun expand_in :: "string list \<Rightarrow> string list" where
  "expand_in [] = []"
| "expand_in (v # vs) =
     (if startswith v ''['' \<and> endswith v '']'' \<and> CHR '','' \<in> set v
      then split_on CHR '','' (drop 1 (take (length v - 1) v)) @ expand_in vs
      else v # expand_in vs)"

text \<open>What \<open>_extract_object_params\<close> returns: the parsed JSON object of the raw form,
  \<open>None\<close>, or the map from subkey to values.\<close>

datatype extracted =
    Raw_object jval
  | No_params
  | Params_map "(string \<times> string list) list"

text \<open>
  One turn of the loop over \<open>request.query_params.lists()\<close>: \<open>continue\<close> is \<open>Skip\<close>,
  reaching \<open>params_map[param_name] = value\<close> is \<open>Store\<close>, and \<open>return\<close> or \<open>raise\<close>
  is \<open>Stop\<close>. \<open>json_loads\<close> is Python's \<open>json.loads\<close>, which raises on text that is
  not JSON.
\<close>

datatype step =
    Skip
  | Store string "string list"
  | Stop "exn + extracted"

text \<open>The end of a turn: a key ending in \<open>.in\<close> has its values spread, then the
  entry is stored.\<close>

definition store_value :: "string \<Rightarrow> string list \<Rightarrow> step" where
  "store_value sub val = Store sub (if endswith sub ''.in'' then expand_in val else val)"

definition extract_step ::
  "(string \<Rightarrow> exn + jval) \<Rightarrow> string \<Rightarrow> bool \<Rightarrow> string \<Rightarrow> string list \<Rightarrow> step" where
  "extract_step json_loads name raw param_name val =
     (let prefix = butlast name; offset = length prefix in
      if param_name = name then
        (if raw \<and> val \<noteq> [] then
           (case json_loads (hd val) of
              Inl e \<Rightarrow> Stop (Inl e)
            | Inr j \<Rightarrow> Stop (Inr (Raw_object j)))
         else Skip)
      else if \<not> startswith param_name prefix then Skip
      else if endswith param_name ''}'' then
        store_value (drop offset (take (length param_name - 1) param_name)) val
      else if endswith param_name ''}[]'' then
        store_value (drop offset (take (length param_name - 3) param_name)) val
      else
        Stop (Inl (ParseError (dq @ param_name @ dq @ '' is not a well-formed filter key.''))))"

fun extract_loop ::
  "(string \<Rightarrow> exn + jval) \<Rightarrow> string \<Rightarrow> bool \<Rightarrow> query_params \<Rightarrow>
   (string \<times> string list) list \<Rightarrow> exn + extracted" where
  "extract_loop json_loads name raw [] params_map =
     Inr (if raw then No_params else Params_map params_map)"
| "extract_loop json_loads name raw (p # rest) params_map =
     (case extract_step json_loads name raw (fst p) (snd p) of
        Skip \<Rightarrow> extract_loop json_loads name raw rest params_map
      | Store sub val \<Rightarrow> extract_loop json_loads name raw rest (setitem params_map sub val)
      | Stop r \<Rightarrow> r)"

definition extract_object_params ::
  "(string \<Rightarrow> exn + jval) \<Rightarrow> query_params \<Rightarrow> string \<Rightarrow> bool \<Rightarrow> exn + extracted" where
  "extract_object_params json_loads qp name raw = extract_loop json_loads name raw qp []"

section \<open>Parsing the request's features\<close>

text \<open>
  \<open>get_request_feature\<close> has three branches, chosen by the shape of the feature's name,
  and each returns a value of its own type: a list (or \<open>None\<close>) for \<open>name[]\<close>, what
  \<open>_extract_object_params\<close> gives (or \<open>{}\<close>) for \<open>name{}\<close>, a single value (or \<open>None\<close>)
  otherwise.
\<close>

definition array_feature :: "string list \<Rightarrow> query_params \<Rightarrow> string \<Rightarrow> string list option" where
  "array_feature features qp name = (if name \<in> set features then Some (getlist qp name) else None)"

definition object_feature ::
  "(string \<Rightarrow> exn + jval) \<Rightarrow> string list \<Rightarrow> query_params \<Rightarrow> string \<Rightarrow> bool \<Rightarrow> exn + extracted" where
  "object_feature json_loads features qp name raw =
     (if name \<in> set features then extract_object_params json_loads qp name raw
      else Inr (Params_map []))"

definition single_feature :: "string list \<Rightarrow> query_params \<Rightarrow> string \<Rightarrow> string option" where
  "single_feature features qp name = (if name \<in> set features then qget qp name else None)"

datatype feature =
    Array_value "string list option"
  | Object_value extracted
  | Single_value "string option"

definition get_request_feature ::
  "(string \<Rightarrow> exn + jval) \<Rightarrow> string list \<Rightarrow> query_params \<Rightarrow> string \<Rightarrow> bool \<Rightarrow> exn + feature" where
  "get_request_feature json_loads features qp name raw =
     (if contains name ''[]'' then Inr (Array_value (array_feature features qp name))
      else if contains name ''{}'' then
        (case object_feature json_loads features qp name raw of
           Inl e \<Rightarrow> Inl e
         | Inr x \<Rightarrow> Inr (Object_value x))
      else Inr (Single_value (single_feature features qp name)))"

text \<open>Python truthiness of what \<open>_extract_object_params\<close> returned.\<close>

fun extracted_truthy :: "extracted \<Rightarrow> bool" where
  "extracted_truthy (Raw_object j) = truthy j"
| "extracted_truthy No_params = False"
| "extracted_truthy (Params_map m) = (m \<noteq> [])"

subsection \<open>patch-all\<close>

text \<open>\<open>get_request_patch_all\<close> returns \<open>None\<close>, the string \<open>query\<close> or \<open>True\<close>.\<close>

datatype patch_mode = Query_mode | Loop_mode

text \<open>
  \<open>PATCH_ALL\<close> has neither \<open>[]\<close> nor \<open>{}\<close> in it, so \<open>get_request_feature\<close> takes its
  last branch. \<open>lower\<close> is Python's \<open>str.lower\<close> and \<open>is_truthy\<close> is
  \<open>dynamic_rest.utils.is_truthy\<close>; neither is code of \<open>viewsets.py\<close>, both are
  parameters.
\<close>

definition get_request_patch_all ::
  "(string \<Rightarrow> string) \<Rightarrow> (string \<Rightarrow> bool) \<Rightarrow> string list \<Rightarrow> query_params \<Rightarrow>
   exn + patch_mode option" where
  "get_request_patch_all lower is_truthy features qp =
     (case single_feature features qp PATCH_ALL of
        None \<Rightarrow> Inr None
      | Some v \<Rightarrow>
          if v = [] then Inr None
          else
            (let patch_all = lower v in
             if patch_all = ''query'' then Inr (Some Query_mode)
             else if is_truthy patch_all then Inr (Some Loop_mode)
             else Inl (ParseError (dq @ patch_all @ dq @ '' is not valid for '' @ PATCH_ALL))))"

subsection \<open>include[] and exclude[]\<close>

text \<open>The request-field tree: a field name maps to \<open>True\<close>/\<open>False\<close> or to a nested dict.\<close>

datatype rf =
    RFlag bool
  | RMap "(string \<times> rf) list"

text \<open>
  The loop over a value's segments once \<open>current_fields\<close> has become a boolean (an
  earlier value bound this name to \<open>True\<close> or \<open>False\<close>): a non-empty segment makes
  Python raise \<open>TypeError\<close> (a \<open>bool\<close> supports neither \<open>in\<close> nor item assignment), an
  empty one is refused unless it is the last. The result is the exception raised, if any.
  The two messages are Python's: \<open>'bool' object does not support item assignment\<close> for
  \<open>current_fields[segment] = ...\<close>, and \<open>argument of type 'bool' is not iterable\<close> for
  \<open>segment not in current_fields\<close>.
\<close>

definition bool_no_item_assignment :: string where
  "bool_no_item_assignment = sq @ ''bool'' @ sq @ '' object does not support item assignment''"

definition bool_not_iterable :: string where
  "bool_not_iterable = ''argument of type '' @ sq @ ''bool'' @ sq @ '' is not iterable''"

fun bool_segments :: "string \<Rightarrow> string list \<Rightarrow> exn option" where
  "bool_segments field [] = None"
| "bool_segments field (segment # rest) =
     (if segment \<noteq> [] then
        Some (TypeError (if rest = [] then bool_no_item_assignment
                         else bool_not_iterable))
      else if rest \<noteq> [] then
        Some (ParseError (dq @ field @ dq @ '' is not a valid field.''))
      else None)"

text \<open>
  The loop over \<open>enumerate(field_segments)\<close> with \<open>current_fields\<close> a dict; \<open>last\<close> is
  \<open>rest = []\<close>. The dicts are shared and changed in place, so the result is the dict
  with the changes made below it.
\<close>

fun add_segments ::
  "bool \<Rightarrow> string \<Rightarrow> string list \<Rightarrow> (string \<times> rf) list \<Rightarrow> exn + (string \<times> rf) list" where
  "add_segments include field [] current_fields = Inr current_fields"
| "add_segments include field (segment # rest) current_fields =
     (if segment \<noteq> [] then
        (if rest = [] then Inr (setitem current_fields segment (RFlag include))
         else
           (case (case map_of current_fields segment of None \<Rightarrow> RMap [] | Some c \<Rightarrow> c) of
              RMap sub \<Rightarrow>
                (case add_segments include field rest sub of
                   Inl e \<Rightarrow> Inl e
                 | Inr sub' \<Rightarrow> Inr (setitem current_fields segment (RMap sub')))
            | RFlag b \<Rightarrow>
                (case bool_segments field rest of
                   Some e \<Rightarrow> Inl e
                 | None \<Rightarrow> Inr current_fields)))
      else if rest \<noteq> [] then
        Inl (ParseError (dq @ field @ dq @ '' is not a valid field.''))
      else Inr current_fields)"

definition add_field :: "bool \<Rightarrow> string \<Rightarrow> (string \<times> rf) list \<Rightarrow> exn + (string \<times> rf) list" where
  "add_field include field request_fields =
     add_segments include field (split_on CHR ''.'' field) request_fields"

fun add_fields :: "bool \<Rightarrow> string list \<Rightarrow> (string \<times> rf) list \<Rightarrow> exn + (string \<times> rf) list" where
  "add_fields include [] request_fields = Inr request_fields"
| "add_fields include (field # others) request_fields =
     (case add_field include field request_fields of
        Inl e \<Rightarrow> Inl e
      | Inr request_fields' \<Rightarrow> add_fields include others request_fields')"

text \<open>\<open>if fields is None: continue\<close>, else the loop over the feature's values.\<close>

definition add_feature_fields ::
  "bool \<Rightarrow> string list option \<Rightarrow> (string \<times> rf) list \<Rightarrow> exn + (string \<times> rf) list" where
  "add_feature_fields include feature_values request_fields =
     (case feature_values of
        None \<Rightarrow> Inr request_fields
      | Some fs \<Rightarrow> add_fields include fs request_fields)"

text \<open>
  \<open>get_request_fields\<close> on its first call in a request (later calls return the cached
  \<open>_request_fields\<close>): the include values, then the exclude values.
\<close>

definition get_request_fields :: "string list \<Rightarrow> query_params \<Rightarrow> exn + (string \<times> rf) list" where
  "get_request_fields features qp =
     (let include_fields = array_feature features qp INCLUDE;
          exclude_fields = array_feature features qp EXCLUDE
      in case add_feature_fields True include_fields [] of
           Inl e \<Rightarrow> Inl e
         | Inr request_fields \<Rightarrow> add_feature_fields False exclude_fields request_fields)"

section \<open>The view set and its collaborators\<close>

text \<open>
  A serializer field. The view set reads \<open>source\<close> and \<open>read_only\<close>. \<open>immutable\<close> is the
  flag the fields of this library take beside \<open>read_only\<close> (in \<open>tests/serializers.py\<close>,
  \<open>DynamicRelationField('CatSerializer', immutable=True)\<close>); \<open>viewsets.py\<close> never reads it.
\<close>

record field =
  source :: "string option"
  read_only :: bool
  immutable :: bool

text \<open>The request: its query parameters and its parsed payload (\<open>request.data\<close>).\<close>

record request =
  query_params :: query_params
  data :: jval

text \<open>
  The view set (\<open>self\<close>): its class attributes, and the methods it calls that are not
  code of \<open>viewsets.py\<close> (Django's query sets and models, the serializers, the
  sideloading processor, the parent class \<open>ModelViewSet\<close>, Python's library). The store
  \<open>'s\<close> is passed through every call that reads or writes it; \<open>'q\<close> is a query set.
  A call that can raise returns a sum, \<open>Inl\<close> the exception.

  \<^item> \<open>filtered_queryset\<close> is \<open>self.filter_queryset(self.get_queryset())\<close>;
  \<^item> \<open>validate\<close> is \<open>get_serializer(data=entry)\<close> followed by
    \<open>is_valid(raise_exception=True)\<close>, and gives the valid serializer;
  \<^item> \<open>perform_create\<close> gives \<open>serializer.instance\<close>;
  \<^item> \<open>sideload\<close> is \<open>SideloadingProcessor(self.get_serializer(), items).data\<close>;
  \<^item> \<open>bulk_validate\<close> is \<open>get_serializer(queryset, data=data, many=True, partial=partial)\<close>
    followed by \<open>is_valid(raise_exception=True)\<close>, and \<open>perform_update\<close> gives
    \<open>serializer.data\<close>;
  \<^item> \<open>instances_by_id\<close> is \<open>get_queryset().filter(id__in=ids).distinct()\<close>;
  \<^item> \<open>getattr_source\<close> is \<open>getattr(obj, field.source)\<close> and \<open>related_data\<close> is the
    \<open>data\<close> of the related serializer;
  \<^item> \<open>super_create\<close>, \<open>super_update\<close> and \<open>super_destroy\<close> are the methods of
    \<open>ModelViewSet\<close>.
\<close>

record ('s, 'q) view =
  features :: "string list"
  ENABLE_BULK_PARTIAL_CREATION :: bool
  ENABLE_BULK_UPDATE :: bool
  ENABLE_PATCH_ALL :: bool
  lookup_url_kwarg :: "string option"
  lookup_field :: string
  plural_name :: string
  json_loads :: "string \<Rightarrow> exn + jval"
  lower :: "string \<Rightarrow> string"
  is_truthy :: "string \<Rightarrow> bool"
  py_str :: "obj \<Rightarrow> string"
  all_fields :: "(string \<times> field) list"
  serializer_fields :: "(string \<times> rf) list \<Rightarrow> (string \<times> field) list"
  filtered_queryset :: "query_params \<Rightarrow> exn + 'q"
  qs_first :: "'q \<Rightarrow> 's \<Rightarrow> obj option"
  qs_iter :: "'q \<Rightarrow> 's \<Rightarrow> obj list"
  qs_update :: "'q \<Rightarrow> obj \<Rightarrow> 's \<Rightarrow> (exn + int) \<times> 's"
  save :: "obj \<Rightarrow> 's \<Rightarrow> exn + 's"
  getattr_source :: "obj \<Rightarrow> string \<Rightarrow> 's \<Rightarrow> exn + jval"
  related_data :: "jval \<Rightarrow> jval"
  validate :: "'s \<Rightarrow> jval \<Rightarrow> exn + jval"
  perform_create :: "jval \<Rightarrow> 's \<Rightarrow> (exn + obj) \<times> 's"
  to_representation :: "obj \<Rightarrow> jval"
  sideload :: "jval list \<Rightarrow> obj"
  bulk_validate :: "'q \<Rightarrow> jval \<Rightarrow> bool \<Rightarrow> 's \<Rightarrow> exn + jval"
  perform_update :: "jval \<Rightarrow> 's \<Rightarrow> (exn + jval) \<times> 's"
  instances_by_id :: "jval list \<Rightarrow> 's \<Rightarrow> obj list"
  check_object_permissions :: "obj \<Rightarrow> exn option"
  perform_destroy :: "obj \<Rightarrow> 's \<Rightarrow> exn + 's"
  super_create :: "request \<Rightarrow> 's \<Rightarrow> (exn + response) \<times> 's"
  super_update :: "request \<Rightarrow> string list \<Rightarrow> 's \<Rightarrow> (exn + response) \<times> 's"
  super_destroy :: "request \<Rightarrow> string list \<Rightarrow> 's \<Rightarrow> (exn + response) \<times> 's"

text \<open>\<open>for entry in data\<close> over a payload value: a list gives its elements, a dict its
  keys, a string its characters; anything else is not iterable.\<close>

definition py_iter :: "jval \<Rightarrow> exn + jval list" where
  "py_iter d =
     (case d of
        JList xs \<Rightarrow> Inr xs
      | JDict kvs \<Rightarrow> Inr (map (\<lambda>p. JStr (fst p)) kvs)
      | JStr s \<Rightarrow> Inr (map (\<lambda>c. JStr [c]) s)
      | _ \<Rightarrow> Inl (TypeError ''object is not iterable''))"

section \<open>The related-object endpoint\<close>

definition prefix_inex_params ::
  "string list \<Rightarrow> query_params \<Rightarrow> string \<Rightarrow> string \<Rightarrow> query_params" where
  "prefix_inex_params feats qp feature prefix =
     (case array_feature feats qp feature of
        None \<Rightarrow> qp
      | Some vals \<Rightarrow>
          if vals = [] then qp
          else add_list (delitem qp feature) feature (map (\<lambda>val. prefix @ val) vals))"

text \<open>The query parameters as \<open>list_related\<close> has rewritten them when it builds the
  serializer and the query.\<close>

definition related_params :: "string list \<Rightarrow> query_params \<Rightarrow> string \<Rightarrow> string \<Rightarrow> query_params" where
  "related_params feats qp pk field_name =
     (let field_prefix = field_name @ ''.'';
          qp1 = prefix_inex_params feats qp INCLUDE field_prefix;
          qp2 = prefix_inex_params feats qp1 EXCLUDE field_prefix;
          qp3 = appendlist qp2 ''filter{pk}'' pk
      in appendlist qp3 INCLUDE field_prefix)"

text \<open>
  From \<open>related_szr = field.get_serializer(envelope=True)\<close> on, for the root \<open>obj\<close>.
  \<open>Response(related_szr.data)\<close> has the default status, 200.
\<close>

definition related_response :: "('s, 'q) view \<Rightarrow> field \<Rightarrow> obj \<Rightarrow> 's \<Rightarrow> exn + response" where
  "related_response v fld ob s =
     (case source fld of
        None \<Rightarrow> Inl (TypeError ''attribute name must be string'')
      | Some src \<Rightarrow>
          (case getattr_source v ob src s of
             Inl (ObjectDoesNotExist m) \<Rightarrow> Inr \<lparr>body = JDict [], status = 200\<rparr>
           | Inl e \<Rightarrow> Inl e
           | Inr rel \<Rightarrow> Inr \<lparr>body = related_data v rel, status = HTTP_200_OK\<rparr>))"

text \<open>
  \<open>list_related\<close>. \<open>self.get_serializer()\<close> parses the include and exclude values
  (\<open>get_request_fields\<close>) and gives the serializer whose \<open>fields\<close> are looked up;
  \<open>queryset.first()\<close> is \<open>None\<close> when the filtered query set is empty.
\<close>

definition list_related ::
  "('s, 'q) view \<Rightarrow> request \<Rightarrow> string \<Rightarrow> string \<Rightarrow> 's \<Rightarrow> exn + response" where
  "list_related v req pk field_name s =
     (case object_feature (json_loads v) (features v) (query_params req) FILTER False of
        Inl e \<Rightarrow> Inl e
      | Inr flt \<Rightarrow>
          if extracted_truthy flt then
            Inl (ValidationError ''Filtering is not enabled on relation endpoints.'')
          else
            (let qp = related_params (features v) (query_params req) pk field_name in
             case get_request_fields (features v) qp of
               Inl e \<Rightarrow> Inl e
             | Inr request_fields \<Rightarrow>
                 (case map_of (serializer_fields v request_fields) field_name of
                    None \<Rightarrow>
                      Inl (ValidationError (''Unknown field: '' @ dq @ field_name @ dq @ ''.''))
                  | Some fld \<Rightarrow>
                      (case filtered_queryset v qp of
                         Inl e \<Rightarrow> Inl e
                       | Inr queryset \<Rightarrow>
                           (case qs_first v queryset s of
                              None \<Rightarrow> Inr \<lparr>body = JStr ''Not found'', status = 404\<rparr>
                            | Some ob \<Rightarrow> related_response v fld ob s)))))"

section \<open>Bulk payloads\<close>

text \<open>
  \<open>_get_bulk_payload\<close>. \<open>plural_name in data\<close> is a key test on a dict and a substring
  test on a string (whose indexing by a string then raises); \<open>None\<close>, a boolean or a
  number has no \<open>in\<close>.
\<close>

definition get_bulk_payload :: "string \<Rightarrow> jval \<Rightarrow> exn + jval option" where
  "get_bulk_payload plural d =
     (case d of
        JList xs \<Rightarrow> Inr (Some d)
      | JDict kvs \<Rightarrow>
          (if map_of kvs plural \<noteq> None \<and> length kvs = 1 then Inr (map_of kvs plural)
           else Inr None)
      | JStr str \<Rightarrow>
          (if contains str plural \<and> length str = 1
           then Inl (TypeError ''string indices must be integers'')
           else Inr None)
      | _ \<Rightarrow> Inl (TypeError ''argument is not iterable''))"

section \<open>Bulk update and patch-all\<close>

definition bulk_update ::
  "('s, 'q) view \<Rightarrow> request \<Rightarrow> jval \<Rightarrow> bool \<Rightarrow> 's \<Rightarrow> (exn + response) \<times> 's" where
  "bulk_update v req d partial s =
     (case filtered_queryset v (query_params req) of
        Inl e \<Rightarrow> (Inl e, s)
      | Inr queryset \<Rightarrow>
          (case bulk_validate v queryset d partial s of
             Inl e \<Rightarrow> (Inl e, s)
           | Inr serializer \<Rightarrow>
               (case perform_update v serializer s of
                  (Inl e, s') \<Rightarrow> (Inl e, s')
                | (Inr out, s') \<Rightarrow> (Inr \<lparr>body = out, status = HTTP_200_OK\<rparr>, s'))))"

text \<open>\<open>field.source or name\<close>.\<close>

definition source_or :: "field \<Rightarrow> string \<Rightarrow> string" where
  "source_or fld name =
     (case source fld of None \<Rightarrow> name | Some src \<Rightarrow> (if src = [] then name else src))"

text \<open>The loop of \<open>_validate_patch_all\<close> over \<open>data.items()\<close>.\<close>

fun validate_items :: "(string \<times> field) list \<Rightarrow> (string \<times> jval) list \<Rightarrow> obj \<Rightarrow> exn + obj" where
  "validate_items flds [] validated = Inr validated"
| "validate_items flds (item # rest) validated =
     (case map_of flds (fst item) of
        None \<Rightarrow> Inl (ValidationError (''Unknown field: '' @ dq @ fst item @ dq))
      | Some fld \<Rightarrow>
          if source_or fld (fst item) = ''*'' \<or> read_only fld then
            Inl (ValidationError (''Cannot update field: '' @ dq @ fst item @ dq))
          else validate_items flds rest (setitem validated (source_or fld (fst item)) (snd item)))"

definition validate_patch_all :: "(string \<times> field) list \<Rightarrow> jval \<Rightarrow> exn + obj" where
  "validate_patch_all flds d =
     (case d of
        JDict items \<Rightarrow> validate_items flds items []
      | _ \<Rightarrow> Inl (ValidationError ''Patch-all data must be in object form''))"

definition patch_all_query ::
  "('s, 'q) view \<Rightarrow> 'q \<Rightarrow> obj \<Rightarrow> 's \<Rightarrow> (exn + int) \<times> 's" where
  "patch_all_query v queryset d s =
     (case qs_update v queryset d s of
        (Inl e, s') \<Rightarrow>
          (Inl (ValidationError
             (''Failed to bulk-update records:'' @ nl @ str_exn e @ nl @ ''Data: '' @ py_str v d)),
           s')
      | (Inr n, s') \<Rightarrow> (Inr n, s'))"

text \<open>\<open>for k, v in data.items(): setattr(record, k, v)\<close>.\<close>

definition setattrs :: "obj \<Rightarrow> obj \<Rightarrow> obj" where
  "setattrs record d = foldl (\<lambda>r kv. setitem r (fst kv) (snd kv)) record d"

text \<open>The loop of \<open>_patch_all_loop\<close>: it stops at the first \<open>save\<close> that raises.\<close>

fun save_loop :: "('s, 'q) view \<Rightarrow> obj \<Rightarrow> obj list \<Rightarrow> nat \<Rightarrow> 's \<Rightarrow> exn + (nat \<times> 's)" where
  "save_loop v d [] updated s = Inr (updated, s)"
| "save_loop v d (record # rest) updated s =
     (case save v (setattrs record d) s of
        Inl e \<Rightarrow> Inl e
      | Inr s' \<Rightarrow> save_loop v d rest (updated + 1) s')"

text \<open>
  \<open>with transaction.atomic():\<close> (Django): the block's writes are committed when it
  ends normally and rolled back when it ends with an exception, which is raised again.
\<close>

definition atomic :: "('s \<Rightarrow> exn + ('a \<times> 's)) \<Rightarrow> 's \<Rightarrow> (exn + 'a) \<times> 's" where
  "atomic block s =
     (case block s of
        Inl e \<Rightarrow> (Inl e, s)
      | Inr (a, s') \<Rightarrow> (Inr a, s'))"

definition patch_all_loop ::
  "('s, 'q) view \<Rightarrow> 'q \<Rightarrow> obj \<Rightarrow> 's \<Rightarrow> (exn + nat) \<times> 's" where
  "patch_all_loop v queryset d s =
     (case atomic (\<lambda>s0. save_loop v d (qs_iter v queryset s0) 0 s0) s of
        (Inl (IntegrityError m), s') \<Rightarrow>
          (Inl (ValidationError
             (''Failed to update records:'' @ nl @ m @ nl @ ''Data: '' @ py_str v d)),
           s')
      | r \<Rightarrow> r)"

text \<open>\<open>Response({"meta": {"updated": updated}}, status=status.HTTP_200_OK)\<close>.\<close>

definition updated_response :: "int \<Rightarrow> response" where
  "updated_response updated =
     \<lparr>body = JDict [(''meta'', JDict [(''updated'', JInt updated)])], status = HTTP_200_OK\<rparr>"

definition patch_all ::
  "('s, 'q) view \<Rightarrow> request \<Rightarrow> jval \<Rightarrow> bool \<Rightarrow> 's \<Rightarrow> (exn + response) \<times> 's" where
  "patch_all v req d query s =
     (case filtered_queryset v (query_params req) of
        Inl e \<Rightarrow> (Inl e, s)
      | Inr queryset \<Rightarrow>
          (case validate_patch_all (all_fields v) d of
             Inl e \<Rightarrow> (Inl e, s)
           | Inr validated \<Rightarrow>
               if query then
                 (case patch_all_query v queryset validated s of
                    (Inl e, s') \<Rightarrow> (Inl e, s')
                  | (Inr updated, s') \<Rightarrow> (Inr (updated_response updated), s'))
               else
                 (case patch_all_loop v queryset validated s of
                    (Inl e, s') \<Rightarrow> (Inl e, s')
                  | (Inr updated, s') \<Rightarrow> (Inr (updated_response (int updated)), s'))))"

text \<open>The singular update: \<open>super().update\<close>, with the assertion of a missing URL
  keyword turned into a validation error.\<close>

definition singular_update ::
  "('s, 'q) view \<Rightarrow> request \<Rightarrow> string list \<Rightarrow> 's \<Rightarrow> (exn + response) \<times> 's" where
  "singular_update v req kwargs s =
     (case super_update v req kwargs s of
        (Inl (AssertionError err), s') \<Rightarrow>
          (if contains err ''Fix your URL conf'' then (Inl (ValidationError err), s')
           else (Inl (AssertionError err), s'))
      | r \<Rightarrow> r)"

text \<open>\<open>update\<close>; \<open>kwargs\<close> are the names of the keyword arguments of the call.\<close>

definition update ::
  "('s, 'q) view \<Rightarrow> request \<Rightarrow> string list \<Rightarrow> 's \<Rightarrow> (exn + response) \<times> 's" where
  "update v req kwargs s =
     (if ENABLE_BULK_UPDATE v then
        (case get_request_patch_all (lower v) (is_truthy v) (features v) (query_params req) of
           Inl e \<Rightarrow> (Inl e, s)
         | Inr mode \<Rightarrow>
             if ENABLE_PATCH_ALL v \<and> mode \<noteq> None then
               patch_all v req (data req) (mode = Some Query_mode) s
             else
               (let partial = (''partial'' \<in> set kwargs) in
                case get_bulk_payload (plural_name v) (data req) of
                  Inl e \<Rightarrow> (Inl e, s)
                | Inr None \<Rightarrow> singular_update v req kwargs s
                | Inr (Some bulk_payload) \<Rightarrow>
                    if truthy bulk_payload then bulk_update v req bulk_payload partial s
                    else singular_update v req kwargs s))
      else singular_update v req kwargs s)"

section \<open>Bulk creation\<close>

text \<open>
  One turn of the first loop of \<open>_create_many\<close>, on the lists \<open>items\<close>, \<open>errors\<close> and
  \<open>serializers\<close>. Only a \<open>ValidationError\<close> is caught; any other exception ends the
  request.
\<close>

definition create_entry ::
  "('s, 'q) view \<Rightarrow> jval \<Rightarrow> jval list \<times> jval list \<times> jval list \<Rightarrow> 's \<Rightarrow>
   (exn + jval list \<times> jval list \<times> jval list) \<times> 's" where
  "create_entry v entry acc s =
     (case acc of (items, errors, serializers) \<Rightarrow>
        (case validate v s entry of
           Inl (ValidationError detail) \<Rightarrow>
             (Inr (items, errors @ [JDict [(''detail'', JStr detail), (''source'', entry)]],
                   serializers), s)
         | Inl e \<Rightarrow> (Inl e, s)
         | Inr serializer \<Rightarrow>
             if ENABLE_BULK_PARTIAL_CREATION v then
               (case perform_create v serializer s of
                  (Inl e, s') \<Rightarrow> (Inl e, s')
                | (Inr instance, s') \<Rightarrow>
                    (Inr (items @ [to_representation v instance], errors, serializers), s'))
             else (Inr (items, errors, serializers @ [serializer]), s)))"

fun create_loop ::
  "('s, 'q) view \<Rightarrow> jval list \<Rightarrow> jval list \<times> jval list \<times> jval list \<Rightarrow> 's \<Rightarrow>
   (exn + jval list \<times> jval list \<times> jval list) \<times> 's" where
  "create_loop v [] acc s = (Inr acc, s)"
| "create_loop v (entry # rest) acc s =
     (case create_entry v entry acc s of
        (Inl e, s') \<Rightarrow> (Inl e, s')
      | (Inr acc', s') \<Rightarrow> create_loop v rest acc' s')"

text \<open>The second loop: \<open>for serializer in serializers\<close>.\<close>

fun create_all :: "('s, 'q) view \<Rightarrow> jval list \<Rightarrow> jval list \<Rightarrow> 's \<Rightarrow> (exn + jval list) \<times> 's" where
  "create_all v [] items s = (Inr items, s)"
| "create_all v (serializer # rest) items s =
     (case perform_create v serializer s of
        (Inl e, s') \<Rightarrow> (Inl e, s')
      | (Inr instance, s') \<Rightarrow> create_all v rest (items @ [to_representation v instance]) s')"

text \<open>From \<open>result = SideloadingProcessor(...).data\<close> to the response.\<close>

definition create_response :: "('s, 'q) view \<Rightarrow> jval list \<Rightarrow> jval list \<Rightarrow> response" where
  "create_response v items errors =
     (let result = sideload v items;
          result' = (if errors \<noteq> [] then setitem result ''errors'' (JList errors) else result);
          code = (if errors = [] then HTTP_201_CREATED else HTTP_400_BAD_REQUEST)
      in \<lparr>body = JDict result', status = code\<rparr>)"

definition create_many :: "('s, 'q) view \<Rightarrow> jval \<Rightarrow> 's \<Rightarrow> (exn + response) \<times> 's" where
  "create_many v d s =
     (case py_iter d of
        Inl e \<Rightarrow> (Inl e, s)
      | Inr entries \<Rightarrow>
          (case create_loop v entries ([], [], []) s of
             (Inl e, s') \<Rightarrow> (Inl e, s')
           | (Inr (items, errors, serializers), s') \<Rightarrow>
               (case (if \<not> ENABLE_BULK_PARTIAL_CREATION v \<and> errors = []
                      then create_all v serializers items s'
                      else (Inr items, s')) of
                  (Inl e, s'') \<Rightarrow> (Inl e, s'')
                | (Inr items', s'') \<Rightarrow> (Inr (create_response v items' errors), s''))))"

definition create :: "('s, 'q) view \<Rightarrow> request \<Rightarrow> 's \<Rightarrow> (exn + response) \<times> 's" where
  "create v req s =
     (case get_bulk_payload (plural_name v) (data req) of
        Inl e \<Rightarrow> (Inl e, s)
      | Inr None \<Rightarrow> super_create v req s
      | Inr (Some bulk_payload) \<Rightarrow>
          if truthy bulk_payload then create_many v bulk_payload s
          else super_create v req s)"

section \<open>Bulk deletion\<close>

text \<open>\<open>d["id"]\<close> on an element of the payload.\<close>

definition getitem_id :: "jval \<Rightarrow> exn + jval" where
  "getitem_id d =
     (case d of
        JDict kvs \<Rightarrow> (case map_of kvs ''id'' of None \<Rightarrow> Inl (KeyError ''id'') | Some x \<Rightarrow> Inr x)
      | _ \<Rightarrow> Inl (TypeError ''indices must be integers''))"

fun collect_ids :: "jval list \<Rightarrow> exn + jval list" where
  "collect_ids [] = Inr []"
| "collect_ids (d # ds) =
     (case getitem_id d of
        Inl e \<Rightarrow> Inl e
      | Inr x \<Rightarrow> (case collect_ids ds of Inl e \<Rightarrow> Inl e | Inr xs \<Rightarrow> Inr (x # xs)))"

fun destroy_loop :: "('s, 'q) view \<Rightarrow> obj list \<Rightarrow> 's \<Rightarrow> exn option \<times> 's" where
  "destroy_loop v [] s = (None, s)"
| "destroy_loop v (instance # rest) s =
     (case check_object_permissions v instance of
        Some e \<Rightarrow> (Some e, s)
      | None \<Rightarrow>
          (case perform_destroy v instance s of
             Inl e \<Rightarrow> (Some e, s)
           | Inr s' \<Rightarrow> destroy_loop v rest s'))"

definition destroy_many :: "('s, 'q) view \<Rightarrow> jval \<Rightarrow> 's \<Rightarrow> (exn + response) \<times> 's" where
  "destroy_many v d s =
     (case py_iter d of
        Inl e \<Rightarrow> (Inl e, s)
      | Inr ds \<Rightarrow>
          (case collect_ids ds of
             Inl e \<Rightarrow> (Inl e, s)
           | Inr ids \<Rightarrow>
               (case destroy_loop v (instances_by_id v ids s) s of
                  (Some e, s') \<Rightarrow> (Inl e, s')
                | (None, s') \<Rightarrow> (Inr \<lparr>body = JNull, status = HTTP_204_NO_CONTENT\<rparr>, s'))))"

text \<open>\<open>self.lookup_url_kwarg or self.lookup_field\<close>.\<close>

definition lookup_kwarg :: "('s, 'q) view \<Rightarrow> string" where
  "lookup_kwarg v =
     (case lookup_url_kwarg v of
        None \<Rightarrow> lookup_field v
      | Some k \<Rightarrow> (if k = [] then lookup_field v else k))"

definition destroy ::
  "('s, 'q) view \<Rightarrow> request \<Rightarrow> string list \<Rightarrow> 's \<Rightarrow> (exn + response) \<times> 's" where
  "destroy v req kwargs s =
     (let singular =
        (if lookup_kwarg v \<notin> set kwargs
         then (Inr \<lparr>body = JNull, status = HTTP_405_METHOD_NOT_ALLOWED\<rparr>, s)
         else super_destroy v req kwargs s)
      in case get_bulk_payload (plural_name v) (data req) of
           Inl e \<Rightarrow> (Inl e, s)
         | Inr None \<Rightarrow> singular
         | Inr (Some bulk_payload) \<Rightarrow>
             if truthy bulk_payload then destroy_many v bulk_payload s else singular)"

section \<open>Reading the request-field tree\<close>



section \<open>An example view set\<close>

text \<open>
  A small view set over a table of dogs, on which the theorems below are run. Its store
  is the list of rows; a query set is the \<open>filter{pk}\<close> value it selects by, if any.
  Names are unique in the table, and the identifier is read-only.
\<close>

definition lower_char :: "char \<Rightarrow> char" where
  "lower_char c =
     (case map_of (zip ''ABCDEFGHIJKLMNOPQRSTUVWXYZ'' ''abcdefghijklmnopqrstuvwxyz'') c of
        None \<Rightarrow> c
      | Some l \<Rightarrow> l)"

definition lower_ascii :: "string \<Rightarrow> string" where
  "lower_ascii str = map lower_char str"

text \<open>
  An \<open>is_truthy\<close> for the example: \<open>dynamic_rest.utils.is_truthy\<close> is not among the
  sources, and the theorems take it as a parameter. The docstring of \<open>update\<close> names
  \<open>true\<close> and \<open>1\<close> as the values that select the loop.
\<close>

definition is_truthy_doc :: "string \<Rightarrow> bool" where
  "is_truthy_doc str = (str = ''true'' \<or> str = ''1'')"

definition demo_features :: "string list" where
  "demo_features =
     [DEBUG, INCLUDE, EXCLUDE, FILTER, ''page'', ''per_page'', SORT, SIDELOADING, PATCH_ALL]"

definition demo_fields :: "(string \<times> field) list" where
  "demo_fields =
     [(''id'', \<lparr>source = Some ''id'', read_only = True, immutable = False\<rparr>),
      (''name'', \<lparr>source = None, read_only = False, immutable = False\<rparr>),
      (''fur'', \<lparr>source = Some ''fur_color'', read_only = False, immutable = False\<rparr>),
      (''owner'', \<lparr>source = Some ''owner'', read_only = False, immutable = False\<rparr>),
      (''self'', \<lparr>source = Some ''*'', read_only = False, immutable = False\<rparr>)]"

definition demo_selects :: "string option \<Rightarrow> obj \<Rightarrow> bool" where
  "demo_selects q row = (case q of None \<Rightarrow> True | Some pk \<Rightarrow> map_of row ''id'' = Some (JStr pk))"

definition demo_save :: "obj \<Rightarrow> obj list \<Rightarrow> exn + obj list" where
  "demo_save row s =
     (if \<exists>x \<in> set s. map_of x ''id'' \<noteq> map_of row ''id'' \<and> map_of x ''name'' = map_of row ''name''
      then Inl (IntegrityError ''UNIQUE constraint failed: dog.name'')
      else Inr (map (\<lambda>x. if map_of x ''id'' = map_of row ''id'' then row else x) s))"

definition demo_validate :: "obj list \<Rightarrow> jval \<Rightarrow> exn + jval" where
  "demo_validate s entry =
     (case entry of
        JDict kvs \<Rightarrow>
          (if map_of kvs ''name'' = None \<or> map_of kvs ''name'' = Some (JStr '''')
           then Inl (ValidationError ''name: This field may not be blank.'')
           else Inr entry)
      | _ \<Rightarrow> Inl (ValidationError ''Invalid data.''))"

definition demo_perform_create :: "jval \<Rightarrow> obj list \<Rightarrow> (exn + obj) \<times> obj list" where
  "demo_perform_create serializer s =
     (case serializer of
        JDict kvs \<Rightarrow> (Inr kvs, s @ [kvs])
      | _ \<Rightarrow> (Inr [], s @ [[]]))"

definition demo_super_update ::
  "request \<Rightarrow> string list \<Rightarrow> obj list \<Rightarrow> (exn + response) \<times> obj list" where
  "demo_super_update req kwargs s =
     (if ''pk'' \<in> set kwargs then (Inr \<lparr>body = data req, status = 200\<rparr>, s)
      else (Inl (AssertionError ''Expected a URL keyword argument. Fix your URL conf.''), s))"

definition demo_view :: "bool \<Rightarrow> (obj list, string option) view" where
  "demo_view partial_creation =
     \<lparr>features = demo_features,
      ENABLE_BULK_PARTIAL_CREATION = partial_creation,
      ENABLE_BULK_UPDATE = True,
      ENABLE_PATCH_ALL = True,
      lookup_url_kwarg = None,
      lookup_field = ''pk'',
      plural_name = ''dogs'',
      json_loads = (\<lambda>text. if text = ''{}'' then Inr (JDict []) else Inl (OtherError ''JSONDecodeError'')),
      lower = lower_ascii,
      is_truthy = is_truthy_doc,
      py_str = (\<lambda>d. concat (map fst d)),
      all_fields = demo_fields,
      serializer_fields = (\<lambda>request_fields. demo_fields),
      filtered_queryset = (\<lambda>qp. Inr (qget qp ''filter{pk}'')),
      qs_first = (\<lambda>q s. case filter (demo_selects q) s of [] \<Rightarrow> None | row # _ \<Rightarrow> Some row),
      qs_iter = (\<lambda>q s. filter (demo_selects q) s),
      qs_update = (\<lambda>q d s. (Inr (int (length (filter (demo_selects q) s))),
                             map (\<lambda>row. if demo_selects q row then setattrs row d else row) s)),
      save = demo_save,
      getattr_source = (\<lambda>ob src s. case map_of ob src of
                          None \<Rightarrow> Inl (ObjectDoesNotExist ''Owner matching query does not exist.'')
                        | Some x \<Rightarrow> Inr x),
      related_data = (\<lambda>rel. rel),
      validate = demo_validate,
      perform_create = demo_perform_create,
      to_representation = JDict,
      sideload = (\<lambda>items. [(''dogs'', JList items)]),
      bulk_validate = (\<lambda>q d partial s. Inr d),
      perform_update = (\<lambda>serializer s. (Inr serializer, s)),
      instances_by_id = (\<lambda>ids s. filter (\<lambda>row. \<exists>i \<in> set ids. map_of row ''id'' = Some i) s),
      check_object_permissions = (\<lambda>instance. None),
      perform_destroy = (\<lambda>instance s. Inr (removeAll instance s)),
      super_create = (\<lambda>req s. (Inr \<lparr>body = data req, status = 201\<rparr>, s)),
      super_update = demo_super_update,
      super_destroy = (\<lambda>req kwargs s. (Inr \<lparr>body = JNull, status = 204\<rparr>, s))\<rparr>"

definition rex :: obj where
  "rex = [(''id'', JStr ''1''), (''name'', JStr ''Rex''), (''fur_color'', JStr ''brown'')]"

definition fido :: obj where
  "fido = [(''id'', JStr ''2''), (''name'', JStr ''Fido''), (''fur_color'', JStr ''brown''),
           (''owner'', JStr ''7'')]"

definition bella :: obj where
  "bella = [(''id'', JStr ''3''), (''name'', JStr ''Bella''), (''fur_color'', JStr ''brown'')]"

definition entry_fido :: jval where
  "entry_fido = JDict [(''name'', JStr ''Fido'')]"

definition entry_blank :: jval where
  "entry_blank = JDict [(''name'', JStr '''')]"

definition blank_error :: jval where
  "blank_error =
     JDict [(''detail'', JStr ''name: This field may not be blank.''), (''source'', entry_blank)]"

text \<open>
  The fields of the \<open>CatSerializer\<close> of \<open>tests/serializers.py\<close> that a payload can name:
  \<open>foobar\<close> has the source \<open>hunting_grounds\<close>, \<open>parent\<close> is declared with
  \<open>immutable=True\<close>, and \<open>name\<close> is listed in \<open>Meta.immutable_fields\<close>. None of them is
  declared read-only.
\<close>

definition cat_fields :: "(string \<times> field) list" where
  "cat_fields =
     [(''name'', \<lparr>source = None, read_only = False, immutable = True\<rparr>),
      (''home'', \<lparr>source = None, read_only = False, immutable = False\<rparr>),
      (''backup_home'', \<lparr>source = None, read_only = False, immutable = False\<rparr>),
      (''foobar'', \<lparr>source = Some ''hunting_grounds'', read_only = False, immutable = False\<rparr>),
      (''parent'', \<lparr>source = None, read_only = False, immutable = True\<rparr>)]"

text \<open>A parent class whose \<open>update\<close> refuses every request.\<close>

definition refusing_super_update ::
  "request \<Rightarrow> string list \<Rightarrow> obj list \<Rightarrow> (exn + response) \<times> obj list" where
  "refusing_super_update req kwargs s = (Inl (OtherError ''refused''), s)"

section \<open>Properties of the request parser\<close>

subsection \<open>The branches of \<open>get_request_feature\<close> the view set takes\<close>

text \<open>
  The callers of \<open>get_request_feature\<close> pass the constant feature names, so each of them
  is modelled on the branch its name selects: the array branch for \<open>include[]\<close> and
  \<open>exclude[]\<close>, the object branch for \<open>filter{}\<close>, the single-value branch for
  \<open>patch-all\<close>.
\<close>

lemma get_request_feature_PATCH_ALL:
  "get_request_feature jl feats qp PATCH_ALL raw = Inr (Single_value (single_feature feats qp PATCH_ALL))"
  by (simp add: get_request_feature_def PATCH_ALL_def startswith_def)

lemma get_request_feature_INCLUDE:
  "get_request_feature jl feats qp INCLUDE raw = Inr (Array_value (array_feature feats qp INCLUDE))"
  by (simp add: get_request_feature_def INCLUDE_def startswith_def)

lemma get_request_feature_EXCLUDE:
  "get_request_feature jl feats qp EXCLUDE raw = Inr (Array_value (array_feature feats qp EXCLUDE))"
  by (simp add: get_request_feature_def EXCLUDE_def startswith_def)

lemma get_request_feature_FILTER:
  "get_request_feature jl feats qp FILTER raw =
     (case object_feature jl feats qp FILTER raw of
        Inl e \<Rightarrow> Inl e
      | Inr x \<Rightarrow> Inr (Object_value x))"
  by (simp add: get_request_feature_def FILTER_def startswith_def)

subsection \<open>patch-all\<close>

text \<open>
  C7. The value of the \<open>patch-all\<close> parameter is the last one given for the key
  (\<open>QueryDict.get\<close>). The result is \<open>None\<close> when the feature is not enabled, the key is
  absent or its value is empty; otherwise the lowercased value decides: \<open>query\<close> is the
  query mode, a truthy value is the loop mode (\<open>True\<close>), and every other value raises
  \<open>ParseError\<close>. The theorem holds for every \<open>lower\<close> and \<open>is_truthy\<close>.
\<close>

theorem get_request_patch_all_modes:
  "(PATCH_ALL \<notin> set feats \<or> map_of qp PATCH_ALL = None \<or> map_of qp PATCH_ALL = Some []
      \<longrightarrow> get_request_patch_all lw tr feats qp = Inr None) \<and>
   (\<forall>vs. PATCH_ALL \<in> set feats \<and> map_of qp PATCH_ALL = Some vs \<and> vs \<noteq> [] \<longrightarrow>
      (last vs = [] \<longrightarrow> get_request_patch_all lw tr feats qp = Inr None) \<and>
      (last vs \<noteq> [] \<and> lw (last vs) = ''query'' \<longrightarrow>
         get_request_patch_all lw tr feats qp = Inr (Some Query_mode)) \<and>
      (last vs \<noteq> [] \<and> lw (last vs) \<noteq> ''query'' \<and> tr (lw (last vs)) \<longrightarrow>
         get_request_patch_all lw tr feats qp = Inr (Some Loop_mode)) \<and>
      (last vs \<noteq> [] \<and> lw (last vs) \<noteq> ''query'' \<and> \<not> tr (lw (last vs)) \<longrightarrow>
         get_request_patch_all lw tr feats qp =
           Inl (ParseError (dq @ lw (last vs) @ dq @ '' is not valid for patch-all''))))"
  by (auto simp: get_request_patch_all_def single_feature_def qget_def PATCH_ALL_def)

theorem get_request_patch_all_modes_witness:
  "get_request_patch_all lower_ascii is_truthy_doc demo_features [(''debug'', [''1''])] = Inr None \<and>
   get_request_patch_all lower_ascii is_truthy_doc demo_features [(''patch-all'', [''''])] = Inr None \<and>
   get_request_patch_all lower_ascii is_truthy_doc demo_features [(''patch-all'', [''Query''])]
     = Inr (Some Query_mode) \<and>
   get_request_patch_all lower_ascii is_truthy_doc demo_features [(''patch-all'', [''0'', ''TRUE''])]
     = Inr (Some Loop_mode) \<and>
   get_request_patch_all lower_ascii is_truthy_doc demo_features [(''patch-all'', [''Maybe''])]
     = Inl (ParseError (dq @ ''maybe'' @ dq @ '' is not valid for patch-all''))"
proof -
  have f: "PATCH_ALL \<in> set demo_features"
    by (simp add: demo_features_def)
  have l: "lower_ascii ''Query'' = ''query''" "lower_ascii ''TRUE'' = ''true''"
    "lower_ascii ''Maybe'' = ''maybe''"
    by (simp_all add: lower_ascii_def lower_char_def)
  note t = get_request_patch_all_modes [of demo_features _ lower_ascii is_truthy_doc]
  have a: "get_request_patch_all lower_ascii is_truthy_doc demo_features [(''debug'', [''1''])] = Inr None"
    using t [of "[(''debug'', [''1''])]"] by (simp add: PATCH_ALL_def)
  have b: "get_request_patch_all lower_ascii is_truthy_doc demo_features [(''patch-all'', [''''])] = Inr None"
    using t [of "[(''patch-all'', [''''])]"] f by (simp add: PATCH_ALL_def)
  have c: "get_request_patch_all lower_ascii is_truthy_doc demo_features [(''patch-all'', [''Query''])]
     = Inr (Some Query_mode)"
    using t [of "[(''patch-all'', [''Query''])]"] f l by (simp add: PATCH_ALL_def)
  have d: "get_request_patch_all lower_ascii is_truthy_doc demo_features [(''patch-all'', [''0'', ''TRUE''])]
     = Inr (Some Loop_mode)"
    using t [of "[(''patch-all'', [''0'', ''TRUE''])]"] f l by (simp add: PATCH_ALL_def is_truthy_doc_def)
  have e: "get_request_patch_all lower_ascii is_truthy_doc demo_features [(''patch-all'', [''Maybe''])]
     = Inl (ParseError (dq @ ''maybe'' @ dq @ '' is not valid for patch-all''))"
    using t [of "[(''patch-all'', [''Maybe''])]"] f l by (simp add: PATCH_ALL_def is_truthy_doc_def)
  from a b c d e show ?thesis by blast
qed

section \<open>Properties of patch-all\<close>

subsection \<open>Validation of the patch-all payload\<close>

lemma map_of_setitem: "map_of (setitem m k v) = (map_of m)(k \<mapsto> v)"
  by (induction m) auto

lemma map_of_foldl_setitem:
  "map_of (foldl (\<lambda>m item. setitem m (f item) (g item)) acc items) =
     map_of (rev (map (\<lambda>item. (f item, g item)) items) @ acc)"
proof (induction items arbitrary: acc)
  case Nil
  show ?case by simp
next
  case (Cons item items)
  show ?case
    by (simp add: Cons.IH map_of_setitem map_add_def fun_eq_iff split: option.splits)
qed

text \<open>A payload entry the loop accepts: a declared field that is writable.\<close>

lemma validate_items_accepts:
  assumes "\<forall>item \<in> set items. \<exists>fld. map_of flds (fst item) = Some fld \<and>
             source_or fld (fst item) \<noteq> ''*'' \<and> \<not> read_only fld"
  shows "validate_items flds items acc =
           Inr (foldl (\<lambda>m item. setitem m
                  (case map_of flds (fst item) of Some fld \<Rightarrow> source_or fld (fst item) | None \<Rightarrow> fst item)
                  (snd item)) acc items)"
  using assms
proof (induction items arbitrary: acc)
  case Nil
  show ?case by simp
next
  case (Cons item items)
  from Cons.prems obtain fld where f: "map_of flds (fst item) = Some fld"
    "source_or fld (fst item) \<noteq> ''*''" "\<not> read_only fld"
    by auto
  from Cons.prems have rest: "\<forall>item \<in> set items. \<exists>fld. map_of flds (fst item) = Some fld \<and>
             source_or fld (fst item) \<noteq> ''*'' \<and> \<not> read_only fld"
    by simp
  show ?case
    using f by (simp add: Cons.IH [OF rest])
qed

lemma validate_items_rejects:
  assumes "\<forall>item \<in> set pre. \<exists>fld. map_of flds (fst item) = Some fld \<and>
             source_or fld (fst item) \<noteq> ''*'' \<and> \<not> read_only fld"
    and "\<not> (\<exists>fld. map_of flds (fst bad) = Some fld \<and>
             source_or fld (fst bad) \<noteq> ''*'' \<and> \<not> read_only fld)"
  shows "validate_items flds (pre @ bad # post) acc =
           Inl (ValidationError
             ((if map_of flds (fst bad) = None then ''Unknown field: '' else ''Cannot update field: '')
              @ dq @ fst bad @ dq))"
  using assms(1)
proof (induction pre arbitrary: acc)
  case Nil
  show ?case
    using assms(2) by (cases "map_of flds (fst bad)") auto
next
  case (Cons item pre)
  from Cons.prems obtain fld where f: "map_of flds (fst item) = Some fld"
    "source_or fld (fst item) \<noteq> ''*''" "\<not> read_only fld"
    by auto
  from Cons.prems have rest: "\<forall>item \<in> set pre. \<exists>fld. map_of flds (fst item) = Some fld \<and>
             source_or fld (fst item) \<noteq> ''*'' \<and> \<not> read_only fld"
    by simp
  show ?case
    using f by (simp add: Cons.IH [OF rest])
qed

text \<open>The \<open>immutable\<close> flag of the fields has no part in the validation.\<close>

lemma map_of_set_immutable:
  "map_of (map (\<lambda>p. (fst p, (snd p)\<lparr>immutable := b\<rparr>)) flds) k =
     map_option (\<lambda>fld. fld\<lparr>immutable := b\<rparr>) (map_of flds k)"
  by (induction flds) auto

lemma validate_items_immutable:
  "validate_items (map (\<lambda>p. (fst p, (snd p)\<lparr>immutable := b\<rparr>)) flds) items acc =
     validate_items flds items acc"
proof (induction items arbitrary: acc)
  case Nil
  show ?case by simp
next
  case (Cons item items)
  show ?case
    by (cases "map_of flds (fst item)")
       (simp_all add: map_of_set_immutable source_or_def Cons.IH)
qed

text \<open>
  C5, as the code has it. \<open>_validate_patch_all\<close> raises a \<open>ValidationError\<close> exactly when
  the payload is not a dict, or some key of it is not a declared field, or the field's
  source is \<open>*\<close>, or the field's \<open>read_only\<close> flag is set. A payload that is not a dict
  gets the message that it must be in object form, which names no field; for a dict the
  error names the first such key (\<open>Unknown field\<close> for an undeclared one,
  \<open>Cannot update field\<close> otherwise). Otherwise the result is the mapping from each
  field's source path (\<open>field.source or name\<close>) to the value supplied for it, a later
  entry replacing an earlier one with the same source. The \<open>immutable\<close> flag of the fields
  is not read: the outcome is the same whatever it is set to.
\<close>

theorem validate_patch_all_raises_iff:
  fixes flds :: "(string \<times> field) list"
  defines "writable \<equiv> \<lambda>item. \<exists>fld. map_of flds (fst item) = Some fld \<and>
             source_or fld (fst item) \<noteq> ''*'' \<and> \<not> read_only fld"
  shows "((\<exists>msg. validate_patch_all flds d = Inl (ValidationError msg)) \<longleftrightarrow>
            (\<nexists>items. d = JDict items) \<or> (\<exists>items. d = JDict items \<and> (\<exists>item \<in> set items. \<not> writable item))) \<and>
         ((\<nexists>items. d = JDict items) \<longrightarrow>
            validate_patch_all flds d = Inl (ValidationError ''Patch-all data must be in object form'')) \<and>
         (\<forall>pre bad post. d = JDict (pre @ bad # post) \<and> (\<forall>item \<in> set pre. writable item) \<and> \<not> writable bad \<longrightarrow>
            validate_patch_all flds d =
              Inl (ValidationError
                ((if map_of flds (fst bad) = None then ''Unknown field: '' else ''Cannot update field: '')
                 @ dq @ fst bad @ dq))) \<and>
         (\<forall>items. d = JDict items \<and> (\<forall>item \<in> set items. writable item) \<longrightarrow>
            (\<exists>validated. validate_patch_all flds d = Inr validated \<and>
               map_of validated =
                 map_of (rev (map (\<lambda>item.
                   (case map_of flds (fst item) of Some fld \<Rightarrow> source_or fld (fst item) | None \<Rightarrow> fst item,
                    snd item)) items)))) \<and>
         (\<forall>b. validate_patch_all (map (\<lambda>p. (fst p, (snd p)\<lparr>immutable := b\<rparr>)) flds) d =
               validate_patch_all flds d)"
proof -
  have immut: "validate_patch_all (map (\<lambda>p. (fst p, (snd p)\<lparr>immutable := b\<rparr>)) flds) d =
               validate_patch_all flds d" for b
    by (cases d) (simp_all add: validate_patch_all_def validate_items_immutable)
  have not_dict: "validate_patch_all flds d = Inl (ValidationError ''Patch-all data must be in object form'')"
    if "\<nexists>items. d = JDict items"
    using that by (cases d) (simp_all add: validate_patch_all_def)
  have rejects: "validate_patch_all flds d =
              Inl (ValidationError
                ((if map_of flds (fst bad) = None then ''Unknown field: '' else ''Cannot update field: '')
                 @ dq @ fst bad @ dq))"
    if "d = JDict (pre @ bad # post)" "\<forall>item \<in> set pre. writable item" "\<not> writable bad"
    for pre bad post
    using that validate_items_rejects [of pre flds bad post "[]"]
    by (simp add: validate_patch_all_def writable_def)
  have accepts: "\<exists>validated. validate_patch_all flds d = Inr validated \<and>
               map_of validated =
                 map_of (rev (map (\<lambda>item.
                   (case map_of flds (fst item) of Some fld \<Rightarrow> source_or fld (fst item) | None \<Rightarrow> fst item,
                    snd item)) items))"
    if "d = JDict items" "\<forall>item \<in> set items. writable item" for items
    using that validate_items_accepts [of items flds "[]"]
      map_of_foldl_setitem [of "\<lambda>item. case map_of flds (fst item) of Some fld \<Rightarrow> source_or fld (fst item) | None \<Rightarrow> fst item" snd "[]" items]
    by (simp add: validate_patch_all_def writable_def)
  have iff: "(\<exists>msg. validate_patch_all flds d = Inl (ValidationError msg)) \<longleftrightarrow>
            (\<nexists>items. d = JDict items) \<or> (\<exists>items. d = JDict items \<and> (\<exists>item \<in> set items. \<not> writable item))"
  proof (cases "\<exists>items. d = JDict items")
    case False
    then show ?thesis using not_dict by simp
  next
    case True
    then obtain items where d: "d = JDict items" by blast
    show ?thesis
    proof (cases "\<forall>item \<in> set items. writable item")
      case True
      with accepts [OF d] d show ?thesis by auto
    next
      case False
      then have "\<exists>item \<in> set items. \<not> writable item" by simp
      then obtain pre bad post where s: "items = pre @ bad # post" "\<not> writable bad"
        "\<forall>item \<in> set pre. \<not> \<not> writable item"
        by (auto simp: split_list_first_prop_iff)
      with rejects [of pre bad post] d False show ?thesis by auto
    qed
  qed
  from iff not_dict rejects have first: "((\<exists>msg. validate_patch_all flds d = Inl (ValidationError msg)) \<longleftrightarrow>
            (\<nexists>items. d = JDict items) \<or> (\<exists>items. d = JDict items \<and> (\<exists>item \<in> set items. \<not> writable item))) \<and>
         ((\<nexists>items. d = JDict items) \<longrightarrow>
            validate_patch_all flds d = Inl (ValidationError ''Patch-all data must be in object form'')) \<and>
         (\<forall>pre bad post. d = JDict (pre @ bad # post) \<and> (\<forall>item \<in> set pre. writable item) \<and> \<not> writable bad \<longrightarrow>
            validate_patch_all flds d =
              Inl (ValidationError
                ((if map_of flds (fst bad) = None then ''Unknown field: '' else ''Cannot update field: '')
                 @ dq @ fst bad @ dq)))"
    by blast
  from accepts immut have second: "(\<forall>items. d = JDict items \<and> (\<forall>item \<in> set items. writable item) \<longrightarrow>
            (\<exists>validated. validate_patch_all flds d = Inr validated \<and>
               map_of validated =
                 map_of (rev (map (\<lambda>item.
                   (case map_of flds (fst item) of Some fld \<Rightarrow> source_or fld (fst item) | None \<Rightarrow> fst item,
                    snd item)) items)))) \<and>
         (\<forall>b. validate_patch_all (map (\<lambda>p. (fst p, (snd p)\<lparr>immutable := b\<rparr>)) flds) d =
               validate_patch_all flds d)"
    by blast
  from first second show ?thesis by simp
qed

theorem validate_patch_all_raises_iff_witness:
  "validate_patch_all demo_fields (JList [JDict [(''fur'', JStr ''gold'')]]) =
     Inl (ValidationError ''Patch-all data must be in object form'') \<and>
   validate_patch_all demo_fields (JDict [(''fur'', JStr ''gold''), (''age'', JInt 3)]) =
     Inl (ValidationError (''Unknown field: '' @ dq @ ''age'' @ dq)) \<and>
   validate_patch_all demo_fields (JDict [(''self'', JStr ''x'')]) =
     Inl (ValidationError (''Cannot update field: '' @ dq @ ''self'' @ dq)) \<and>
   validate_patch_all demo_fields (JDict [(''name'', JStr ''Max''), (''id'', JStr ''9'')]) =
     Inl (ValidationError (''Cannot update field: '' @ dq @ ''id'' @ dq)) \<and>
   (\<exists>validated.
      validate_patch_all demo_fields (JDict [(''fur'', JStr ''gold''), (''name'', JStr ''Max'')]) =
        Inr validated \<and>
      map_of validated ''fur_color'' = Some (JStr ''gold'') \<and>
      map_of validated ''name'' = Some (JStr ''Max'') \<and>
      map_of validated ''fur'' = None) \<and>
   validate_patch_all (map (\<lambda>p. (fst p, (snd p)\<lparr>immutable := True\<rparr>)) demo_fields)
     (JDict [(''name'', JStr ''Max'')]) =
     validate_patch_all demo_fields (JDict [(''name'', JStr ''Max'')])"
proof -
  note t = validate_patch_all_raises_iff [where flds = demo_fields]
  have a: "validate_patch_all demo_fields (JList [JDict [(''fur'', JStr ''gold'')]]) =
     Inl (ValidationError ''Patch-all data must be in object form'')"
    using t [where d = "JList [JDict [(''fur'', JStr ''gold'')]]"] by simp
  have b: "validate_patch_all demo_fields (JDict [(''fur'', JStr ''gold''), (''age'', JInt 3)]) =
     Inl (ValidationError (''Unknown field: '' @ dq @ ''age'' @ dq))"
    using t [where d = "JDict ([(''fur'', JStr ''gold'')] @ (''age'', JInt 3) # [])",
        THEN conjunct2, THEN conjunct2, THEN conjunct1, rule_format,
        of "[(''fur'', JStr ''gold'')]" "(''age'', JInt 3)" "[]"]
    by (simp add: demo_fields_def source_or_def)
  have c: "validate_patch_all demo_fields (JDict [(''self'', JStr ''x'')]) =
     Inl (ValidationError (''Cannot update field: '' @ dq @ ''self'' @ dq))"
    using t [where d = "JDict ([] @ (''self'', JStr ''x'') # [])",
        THEN conjunct2, THEN conjunct2, THEN conjunct1, rule_format,
        of "[]" "(''self'', JStr ''x'')" "[]"]
    by (simp add: demo_fields_def source_or_def)
  have d: "validate_patch_all demo_fields (JDict [(''name'', JStr ''Max''), (''id'', JStr ''9'')]) =
     Inl (ValidationError (''Cannot update field: '' @ dq @ ''id'' @ dq))"
    using t [where d = "JDict ([(''name'', JStr ''Max'')] @ (''id'', JStr ''9'') # [])",
        THEN conjunct2, THEN conjunct2, THEN conjunct1, rule_format,
        of "[(''name'', JStr ''Max'')]" "(''id'', JStr ''9'')" "[]"]
    by (simp add: demo_fields_def source_or_def)
  have e: "\<exists>validated.
      validate_patch_all demo_fields (JDict [(''fur'', JStr ''gold''), (''name'', JStr ''Max'')]) =
        Inr validated \<and>
      map_of validated ''fur_color'' = Some (JStr ''gold'') \<and>
      map_of validated ''name'' = Some (JStr ''Max'') \<and>
      map_of validated ''fur'' = None"
    using t [where d = "JDict [(''fur'', JStr ''gold''), (''name'', JStr ''Max'')]",
        THEN conjunct2, THEN conjunct2, THEN conjunct2, THEN conjunct1, rule_format,
        of "[(''fur'', JStr ''gold''), (''name'', JStr ''Max'')]"]
    by (auto simp: demo_fields_def source_or_def)
  have f: "validate_patch_all (map (\<lambda>p. (fst p, (snd p)\<lparr>immutable := True\<rparr>)) demo_fields)
     (JDict [(''name'', JStr ''Max'')]) =
     validate_patch_all demo_fields (JDict [(''name'', JStr ''Max'')])"
    using t [where d = "JDict [(''name'', JStr ''Max'')]",
        THEN conjunct2, THEN conjunct2, THEN conjunct2, THEN conjunct2, rule_format, of True]
    by simp
  from a b c d e f show ?thesis by (intro conjI)
qed

text \<open>
  C5 as stated fails on an immutable field. In \<open>tests/serializers.py\<close> the field \<open>parent\<close>
  of the \<open>CatSerializer\<close> is declared with \<open>immutable=True\<close> and is not read-only: a
  payload that names it is accepted, and no \<open>ValidationError\<close> is raised. And the error
  for a payload that is not a dict, here a list, names no field.
\<close>

theorem validate_patch_all_immutable_counterexample:
  "map_of cat_fields ''parent'' = Some \<lparr>source = None, read_only = False, immutable = True\<rparr> \<and>
   validate_patch_all cat_fields (JDict [(''parent'', JInt 3)]) = Inr [(''parent'', JInt 3)] \<and>
   validate_patch_all cat_fields (JList [JDict [(''parent'', JInt 3)]]) =
     Inl (ValidationError ''Patch-all data must be in object form'')"
  by (simp add: cat_fields_def validate_patch_all_def source_or_def)

subsection \<open>The transaction loop\<close>

lemma save_loop_append:
  "save_loop v d (xs @ ys) k s =
     (case save_loop v d xs k s of
        Inl e \<Rightarrow> Inl e
      | Inr (k', s') \<Rightarrow> save_loop v d ys k' s')"
  by (induction xs arbitrary: k s) (auto split: sum.splits)

lemma save_loop_count:
  "save_loop v d xs k s = Inr (n, s') \<Longrightarrow> n = k + length xs"
proof (induction xs arbitrary: k s)
  case Nil
  then show ?case by simp
next
  case (Cons x xs)
  from Cons.prems obtain s1 where "save_loop v d xs (k + 1) s1 = Inr (n, s')"
    by (auto split: sum.splits)
  from Cons.IH [OF this] show ?case by simp
qed

text \<open>A loop that ends normally has saved every row, changed by the payload, one after
  the other: \<open>ss\<close> lists the stores between the saves.\<close>

lemma save_loop_trace:
  "save_loop v d xs k s = Inr (n, s') \<Longrightarrow>
     \<exists>ss. length ss = length xs + 1 \<and> hd ss = s \<and> last ss = s' \<and>
          (\<forall>i < length xs. save v (setattrs (xs ! i) d) (ss ! i) = Inr (ss ! Suc i))"
proof (induction xs arbitrary: k s)
  case Nil
  then show ?case by (auto intro: exI [of _ "[s]"])
next
  case (Cons x xs)
  from Cons.prems obtain s1 where s1: "save v (setattrs x d) s = Inr s1"
    and rest: "save_loop v d xs (k + 1) s1 = Inr (n, s')"
    by (auto split: sum.splits)
  from Cons.IH [OF rest] obtain ss where ss: "length ss = length xs + 1" "hd ss = s1"
    "last ss = s'" "\<forall>i < length xs. save v (setattrs (xs ! i) d) (ss ! i) = Inr (ss ! Suc i)"
    by blast
  from ss(1) have ne: "ss \<noteq> []" by auto
  have step: "save v (setattrs ((x # xs) ! i) d) ((s # ss) ! i) = Inr ((s # ss) ! Suc i)"
    if "i < length (x # xs)" for i
  proof (cases i)
    case 0
    with s1 ss(2) ne show ?thesis by (simp add: hd_conv_nth)
  next
    case (Suc j)
    with that ss(4) show ?thesis by simp
  qed
  show ?case
    using ss(1,3) ne step by (intro exI [of _ "s # ss"]) simp
qed

text \<open>
  C1. In loop mode every row of the filtered query set is changed by the payload and
  saved, one row after the other, inside one \<open>transaction.atomic()\<close> block:
  \<^item> whatever exception ends the request, the store is the one the request started from;
  \<^item> when the first failing \<open>save\<close> raises \<open>IntegrityError\<close> with message \<open>m\<close> (after any
    number of successful saves), the request raises the \<open>ValidationError\<close> whose message
    holds \<open>m\<close> and \<open>str(data)\<close>, and nothing is committed;
  \<^item> a request that ends normally returns the number of rows, each of them saved.
\<close>

theorem patch_all_loop_atomic:
  "(\<forall>e s'. patch_all_loop v q d s = (Inl e, s') \<longrightarrow> s' = s) \<and>
   (\<forall>pre row post k s1 m.
      qs_iter v q s = pre @ row # post \<and> save_loop v d pre 0 s = Inr (k, s1) \<and>
      save v (setattrs row d) s1 = Inl (IntegrityError m) \<longrightarrow>
        patch_all_loop v q d s =
          (Inl (ValidationError
             (''Failed to update records:'' @ nl @ m @ nl @ ''Data: '' @ py_str v d)), s)) \<and>
   (\<forall>n s'. patch_all_loop v q d s = (Inr n, s') \<longrightarrow>
      n = length (qs_iter v q s) \<and>
      (\<exists>ss. length ss = n + 1 \<and> hd ss = s \<and> last ss = s' \<and>
         (\<forall>i < n. save v (setattrs (qs_iter v q s ! i) d) (ss ! i) = Inr (ss ! Suc i))))"
proof (intro conjI allI impI)
  fix e s'
  assume "patch_all_loop v q d s = (Inl e, s')"
  then show "s' = s"
    by (auto simp: patch_all_loop_def atomic_def split: sum.splits exn.splits prod.splits)
next
  fix pre row post k s1 m
  assume a: "qs_iter v q s = pre @ row # post \<and> save_loop v d pre 0 s = Inr (k, s1) \<and>
      save v (setattrs row d) s1 = Inl (IntegrityError m)"
  then have "save_loop v d (qs_iter v q s) 0 s = Inl (IntegrityError m)"
    by (simp add: save_loop_append)
  then show "patch_all_loop v q d s =
          (Inl (ValidationError
             (''Failed to update records:'' @ nl @ m @ nl @ ''Data: '' @ py_str v d)), s)"
    by (simp add: patch_all_loop_def atomic_def)
next
  fix n s'
  assume "patch_all_loop v q d s = (Inr n, s')"
  then have l: "save_loop v d (qs_iter v q s) 0 s = Inr (n, s')"
    by (auto simp: patch_all_loop_def atomic_def split: sum.splits exn.splits prod.splits)
  from save_loop_count [OF l] show "n = length (qs_iter v q s)" by simp
  with save_loop_trace [OF l]
  show "\<exists>ss. length ss = n + 1 \<and> hd ss = s \<and> last ss = s' \<and>
         (\<forall>i < n. save v (setattrs (qs_iter v q s ! i) d) (ss ! i) = Inr (ss ! Suc i))"
    by simp
qed

theorem patch_all_loop_atomic_witness:
  "patch_all_loop (demo_view True) None [(''name'', JStr ''Max'')] [rex, fido] =
     (Inl (ValidationError
        (''Failed to update records:'' @ nl @ ''UNIQUE constraint failed: dog.name'' @ nl @
         ''Data: '' @ ''name'')), [rex, fido]) \<and>
   patch_all_loop (demo_view True) None [(''fur_color'', JStr ''gold'')] [rex, fido] =
     (Inr (length [rex, fido]),
      [setattrs rex [(''fur_color'', JStr ''gold'')], setattrs fido [(''fur_color'', JStr ''gold'')]])"
proof -
  let ?v = "demo_view True :: (obj list, string option) view"
  let ?d = "[(''name'', JStr ''Max'')]"
  let ?g = "[(''fur_color'', JStr ''gold'')]"
  have rows: "qs_iter ?v None [rex, fido] = [rex] @ fido # []"
    by (simp add: demo_view_def demo_selects_def)
  have first: "save_loop ?v ?d [rex] 0 [rex, fido] = Inr (1, [setattrs rex ?d, fido])"
    by (simp add: demo_view_def demo_save_def setattrs_def rex_def fido_def)
  have second: "save ?v (setattrs fido ?d) [setattrs rex ?d, fido] =
      Inl (IntegrityError ''UNIQUE constraint failed: dog.name'')"
    by (simp add: demo_view_def demo_save_def setattrs_def rex_def fido_def)
  have str: "py_str ?v ?d = ''name''"
    by (simp add: demo_view_def)
  have a: "patch_all_loop ?v None ?d [rex, fido] =
     (Inl (ValidationError
        (''Failed to update records:'' @ nl @ ''UNIQUE constraint failed: dog.name'' @ nl @
         ''Data: '' @ ''name'')), [rex, fido])"
    using patch_all_loop_atomic [of ?v None ?d "[rex, fido]", THEN conjunct2, THEN conjunct1,
        rule_format, of "[rex]" fido "[]" 1 "[setattrs rex ?d, fido]"
        "''UNIQUE constraint failed: dog.name''"]
      rows first second str
    by simp
  have run: "patch_all_loop ?v None ?g [rex, fido] =
     (Inr 2, [setattrs rex ?g, setattrs fido ?g])"
    by (simp add: patch_all_loop_def atomic_def demo_view_def demo_save_def demo_selects_def
        setattrs_def rex_def fido_def)
  have b: "patch_all_loop ?v None ?g [rex, fido] =
     (Inr (length [rex, fido]), [setattrs rex ?g, setattrs fido ?g])"
    using patch_all_loop_atomic [of ?v None ?g "[rex, fido]", THEN conjunct2, THEN conjunct2,
        rule_format, of 2 "[setattrs rex ?g, setattrs fido ?g]"] run
    by simp
  from a b show ?thesis by blast
qed

subsection \<open>The bulk statement\<close>

text \<open>
  C4. A patch-all request in query mode ends normally exactly when the query set could
  be built, the payload passed \<open>_validate_patch_all\<close> and the one \<open>QuerySet.update\<close> on
  that query set returned a count \<open>n\<close>; the response then has status 200 and the body
  \<open>{"meta": {"updated": n}}\<close>, with no record in it, and the store is the one that
  statement left. \<open>update\<close> takes this path when bulk update and patch-all are enabled
  and the \<open>patch-all\<close> parameter is \<open>query\<close>.
\<close>

theorem patch_all_query_response:
  "((patch_all v req d True s = (Inr r, s')) \<longleftrightarrow>
      (\<exists>q validated n.
         filtered_queryset v (query_params req) = Inr q \<and>
         validate_patch_all (all_fields v) d = Inr validated \<and>
         qs_update v q validated s = (Inr n, s') \<and>
         r = \<lparr>body = JDict [(''meta'', JDict [(''updated'', JInt n)])], status = 200\<rparr>)) \<and>
   (ENABLE_BULK_UPDATE v \<and> ENABLE_PATCH_ALL v \<and>
    get_request_patch_all (lower v) (is_truthy v) (features v) (query_params req) =
      Inr (Some Query_mode) \<longrightarrow>
      update v req kwargs s = patch_all v req (data req) True s)"
proof (intro conjI impI)
  show "(patch_all v req d True s = (Inr r, s')) \<longleftrightarrow>
      (\<exists>q validated n.
         filtered_queryset v (query_params req) = Inr q \<and>
         validate_patch_all (all_fields v) d = Inr validated \<and>
         qs_update v q validated s = (Inr n, s') \<and>
         r = \<lparr>body = JDict [(''meta'', JDict [(''updated'', JInt n)])], status = 200\<rparr>)"
    by (auto simp: patch_all_def patch_all_query_def updated_response_def HTTP_200_OK_def
        split: sum.splits prod.splits)
next
  assume "ENABLE_BULK_UPDATE v \<and> ENABLE_PATCH_ALL v \<and>
    get_request_patch_all (lower v) (is_truthy v) (features v) (query_params req) =
      Inr (Some Query_mode)"
  then show "update v req kwargs s = patch_all v req (data req) True s"
    by (simp add: update_def)
qed

theorem patch_all_query_response_witness:
  "update (demo_view True)
     \<lparr>query_params = [(''patch-all'', [''query''])], data = JDict [(''fur'', JStr ''gold'')]\<rparr>
     [] [rex, fido, bella] =
   (Inr \<lparr>body = JDict [(''meta'', JDict [(''updated'', JInt 3)])], status = 200\<rparr>,
    [setattrs rex [(''fur_color'', JStr ''gold'')],
     setattrs fido [(''fur_color'', JStr ''gold'')],
     setattrs bella [(''fur_color'', JStr ''gold'')]])"
proof -
  let ?v = "demo_view True :: (obj list, string option) view"
  let ?req = "\<lparr>query_params = [(''patch-all'', [''query''])], data = JDict [(''fur'', JStr ''gold'')]\<rparr>"
  let ?g = "[(''fur_color'', JStr ''gold'')]"
  let ?s' = "[setattrs rex ?g, setattrs fido ?g, setattrs bella ?g]"
  let ?r = "\<lparr>body = JDict [(''meta'', JDict [(''updated'', JInt 3)])], status = 200\<rparr>"
  note t = patch_all_query_response [where v = ?v and req = ?req and s = "[rex, fido, bella]"
      and d = "JDict [(''fur'', JStr ''gold'')]" and r = ?r and s' = ?s' and kwargs = "[]"]
  have q: "filtered_queryset ?v (query_params ?req) = Inr None"
    by (simp add: demo_view_def qget_def)
  have val: "validate_patch_all (all_fields ?v) (JDict [(''fur'', JStr ''gold'')]) = Inr ?g"
    by (simp add: demo_view_def validate_patch_all_def demo_fields_def source_or_def)
  have upd: "qs_update ?v None ?g [rex, fido, bella] = (Inr 3, ?s')"
    by (simp add: demo_view_def demo_selects_def)
  have mode: "get_request_patch_all (lower ?v) (is_truthy ?v) (features ?v) (query_params ?req) =
      Inr (Some Query_mode)"
    by (simp add: demo_view_def get_request_patch_all_def single_feature_def qget_def
        demo_features_def PATCH_ALL_def lower_ascii_def lower_char_def)
  have flags: "ENABLE_BULK_UPDATE ?v \<and> ENABLE_PATCH_ALL ?v"
    by (simp add: demo_view_def)
  have "patch_all ?v ?req (JDict [(''fur'', JStr ''gold'')]) True [rex, fido, bella] = (Inr ?r, ?s')"
    using t [THEN conjunct1] q val upd by blast
  moreover have "update ?v ?req [] [rex, fido, bella] =
      patch_all ?v ?req (data ?req) True [rex, fido, bella]"
    using t [THEN conjunct2] mode flags by blast
  ultimately show ?thesis by simp
qed

section \<open>Properties of bulk creation\<close>

subsection \<open>One turn of the first loop\<close>

lemma create_entry_invalid:
  "validate v s entry = Inl (ValidationError detail) \<Longrightarrow>
     create_entry v entry (items, errors, serializers) s =
       (Inr (items, errors @ [JDict [(''detail'', JStr detail), (''source'', entry)]], serializers), s)"
  by (simp add: create_entry_def)

lemma create_entry_raises:
  "validate v s entry = Inl e \<Longrightarrow> \<forall>detail. e \<noteq> ValidationError detail \<Longrightarrow>
     create_entry v entry acc s = (Inl e, s)"
  by (cases e) (auto simp: create_entry_def split: prod.splits)

lemma create_entry_valid_partial:
  "validate v s entry = Inr serializer \<Longrightarrow> ENABLE_BULK_PARTIAL_CREATION v \<Longrightarrow>
     create_entry v entry (items, errors, serializers) s =
       (case perform_create v serializer s of
          (Inl e, s') \<Rightarrow> (Inl e, s')
        | (Inr instance, s') \<Rightarrow> (Inr (items @ [to_representation v instance], errors, serializers), s'))"
  by (simp add: create_entry_def)

lemma create_entry_valid_strict:
  "validate v s entry = Inr serializer \<Longrightarrow> \<not> ENABLE_BULK_PARTIAL_CREATION v \<Longrightarrow>
     create_entry v entry (items, errors, serializers) s =
       (Inr (items, errors, serializers @ [serializer]), s)"
  by (simp add: create_entry_def)

text \<open>The outcomes of a turn that does not end the request.\<close>

lemma create_entry_cases:
  assumes "create_entry v entry (items, errors, serializers) s = (Inr acc', s')"
  shows "(\<exists>detail. validate v s entry = Inl (ValidationError detail) \<and> s' = s \<and>
            acc' = (items, errors @ [JDict [(''detail'', JStr detail), (''source'', entry)]], serializers)) \<or>
         (\<exists>serializer instance. validate v s entry = Inr serializer \<and>
            ENABLE_BULK_PARTIAL_CREATION v \<and>
            perform_create v serializer s = (Inr instance, s') \<and>
            acc' = (items @ [to_representation v instance], errors, serializers)) \<or>
         (\<exists>serializer. validate v s entry = Inr serializer \<and>
            \<not> ENABLE_BULK_PARTIAL_CREATION v \<and> s' = s \<and>
            acc' = (items, errors, serializers @ [serializer]))"
proof (cases "validate v s entry")
  case (Inl e)
  show ?thesis
  proof (cases "\<exists>detail. e = ValidationError detail")
    case True
    then obtain detail where "e = ValidationError detail" by blast
    with Inl assms show ?thesis by (auto simp: create_entry_invalid)
  next
    case False
    with Inl assms show ?thesis by (simp add: create_entry_raises)
  qed
next
  case (Inr serializer)
  show ?thesis
  proof (cases "ENABLE_BULK_PARTIAL_CREATION v")
    case True
    with Inr assms show ?thesis
      by (auto simp: create_entry_valid_partial split: prod.splits sum.splits)
  next
    case False
    with Inr assms show ?thesis by (auto simp: create_entry_valid_strict)
  qed
qed

subsection \<open>The first loop\<close>

text \<open>With partial creation disabled the first loop writes nothing.\<close>

lemma create_entry_strict_store:
  "\<not> ENABLE_BULK_PARTIAL_CREATION v \<Longrightarrow> snd (create_entry v entry acc s) = s"
  by (cases acc)
     (auto simp: create_entry_def split: sum.splits exn.splits prod.splits)

lemma create_loop_strict_store:
  "\<not> ENABLE_BULK_PARTIAL_CREATION v \<Longrightarrow> snd (create_loop v entries acc s) = s"
proof (induction entries arbitrary: acc s)
  case Nil
  show ?case by simp
next
  case (Cons entry entries)
  from create_entry_strict_store [OF Cons.prems, of entry acc s]
  obtain x where x: "create_entry v entry acc s = (x, s)"
    by (cases "create_entry v entry acc s") auto
  show ?case
    using x Cons.IH [OF Cons.prems] by (cases x) auto
qed

text \<open>
  With partial creation disabled every entry is validated against the store the request
  started from; the loop collects one error for each entry whose validation raised
  \<open>ValidationError\<close> and the serializer of every other entry.
\<close>

lemma create_loop_strict:
  assumes "\<not> ENABLE_BULK_PARTIAL_CREATION v"
    and "create_loop v entries (items0, errors0, sers0) s = (Inr (items, errors, sers), s')"
  shows "s' = s \<and> items = items0 \<and>
         errors = errors0 @ concat (map (\<lambda>entry.
            case validate v s entry of
              Inl (ValidationError detail) \<Rightarrow> [JDict [(''detail'', JStr detail), (''source'', entry)]]
            | _ \<Rightarrow> []) entries) \<and>
         sers = sers0 @ concat (map (\<lambda>entry.
            case validate v s entry of Inr serializer \<Rightarrow> [serializer] | _ \<Rightarrow> []) entries)"
  using assms(2)
proof (induction entries arbitrary: items0 errors0 sers0)
  case Nil
  then show ?case by simp
next
  case (Cons x xs)
  from Cons.prems obtain acc1 s1 where step: "create_entry v x (items0, errors0, sers0) s = (Inr acc1, s1)"
    and rest: "create_loop v xs acc1 s1 = (Inr (items, errors, sers), s')"
    by (auto split: prod.splits sum.splits)
  from create_entry_cases [OF step] assms(1)
  consider (invalid) detail where "validate v s x = Inl (ValidationError detail)" "s1 = s"
      "acc1 = (items0, errors0 @ [JDict [(''detail'', JStr detail), (''source'', x)]], sers0)"
    | (valid) serializer where "validate v s x = Inr serializer" "s1 = s"
      "acc1 = (items0, errors0, sers0 @ [serializer])"
    by blast
  then show ?case
  proof cases
    case invalid
    from rest invalid(2,3) Cons.IH [of items0 "errors0 @ [JDict [(''detail'', JStr detail), (''source'', x)]]" sers0]
    show ?thesis by (simp add: invalid(1))
  next
    case valid
    from rest valid(2,3) Cons.IH [of items0 errors0 "sers0 @ [serializer]"]
    show ?thesis by (simp add: valid(1))
  qed
qed

text \<open>
  With partial creation enabled the loop passes through the stores \<open>ss\<close>: entry \<open>i\<close> is
  validated against \<open>ss ! i\<close>; if that raises \<open>ValidationError\<close> the entry gives an error
  (\<open>Inl\<close>) and the store stays, otherwise \<open>perform_create\<close> runs at once on \<open>ss ! i\<close>, gives
  the store \<open>ss ! Suc i\<close> and the entry gives an item (\<open>Inr\<close>).
\<close>

lemma create_loop_partial_trace:
  assumes "ENABLE_BULK_PARTIAL_CREATION v"
    and "create_loop v entries (items0, errors0, sers0) s = (Inr (items, errors, sers), s')"
  shows "\<exists>ss outs. length ss = length entries + 1 \<and> length outs = length entries \<and>
           hd ss = s \<and> last ss = s' \<and> sers = sers0 \<and>
           items = items0 @ concat (map (\<lambda>out. case out of Inl err \<Rightarrow> [] | Inr item \<Rightarrow> [item]) outs) \<and>
           errors = errors0 @ concat (map (\<lambda>out. case out of Inl err \<Rightarrow> [err] | Inr item \<Rightarrow> []) outs) \<and>
           (\<forall>i < length entries.
              (\<exists>detail. validate v (ss ! i) (entries ! i) = Inl (ValidationError detail) \<and>
                 ss ! Suc i = ss ! i \<and>
                 outs ! i = Inl (JDict [(''detail'', JStr detail), (''source'', entries ! i)])) \<or>
              (\<exists>serializer instance. validate v (ss ! i) (entries ! i) = Inr serializer \<and>
                 perform_create v serializer (ss ! i) = (Inr instance, ss ! Suc i) \<and>
                 outs ! i = Inr (to_representation v instance)))"
  using assms(2)
proof (induction entries arbitrary: items0 errors0 sers0 s)
  case Nil
  then show ?case by (auto intro!: exI [of _ "[s]"])
next
  case (Cons x xs)
  from Cons.prems obtain acc1 s1 where step: "create_entry v x (items0, errors0, sers0) s = (Inr acc1, s1)"
    and rest: "create_loop v xs acc1 s1 = (Inr (items, errors, sers), s')"
    by (auto split: prod.splits sum.splits)
  obtain i1 e1 r1 where acc1: "acc1 = (i1, e1, r1)" by (cases acc1) auto
  from Cons.IH [OF rest [unfolded acc1]] obtain ss outs where
    tr: "length ss = length xs + 1" "length outs = length xs" "hd ss = s1" "last ss = s'"
      "sers = r1"
      "items = i1 @ concat (map (\<lambda>out. case out of Inl err \<Rightarrow> [] | Inr item \<Rightarrow> [item]) outs)"
      "errors = e1 @ concat (map (\<lambda>out. case out of Inl err \<Rightarrow> [err] | Inr item \<Rightarrow> []) outs)"
    and steps: "\<forall>i < length xs.
              (\<exists>detail. validate v (ss ! i) (xs ! i) = Inl (ValidationError detail) \<and>
                 ss ! Suc i = ss ! i \<and>
                 outs ! i = Inl (JDict [(''detail'', JStr detail), (''source'', xs ! i)])) \<or>
              (\<exists>serializer instance. validate v (ss ! i) (xs ! i) = Inr serializer \<and>
                 perform_create v serializer (ss ! i) = (Inr instance, ss ! Suc i) \<and>
                 outs ! i = Inr (to_representation v instance))"
    by blast
  from tr(1) have ne: "ss \<noteq> []" by auto
  then have hd0: "ss ! 0 = s1" using tr(3) by (simp add: hd_conv_nth)
  from create_entry_cases [OF step] assms(1) acc1
  consider (invalid) detail where "validate v s x = Inl (ValidationError detail)" "s1 = s"
      "i1 = items0" "e1 = errors0 @ [JDict [(''detail'', JStr detail), (''source'', x)]]" "r1 = sers0"
    | (valid) serializer inst where "validate v s x = Inr serializer"
      "perform_create v serializer s = (Inr inst, s1)"
      "i1 = items0 @ [to_representation v inst]" "e1 = errors0" "r1 = sers0"
    by auto
  then show ?case
  proof cases
    case invalid
    let ?o = "Inl (JDict [(''detail'', JStr detail), (''source'', x)]) :: jval + jval"
    have "\<forall>i < length (x # xs).
              (\<exists>detail. validate v ((s # ss) ! i) ((x # xs) ! i) = Inl (ValidationError detail) \<and>
                 (s # ss) ! Suc i = (s # ss) ! i \<and>
                 (?o # outs) ! i = Inl (JDict [(''detail'', JStr detail), (''source'', (x # xs) ! i)])) \<or>
              (\<exists>serializer instance. validate v ((s # ss) ! i) ((x # xs) ! i) = Inr serializer \<and>
                 perform_create v serializer ((s # ss) ! i) = (Inr instance, (s # ss) ! Suc i) \<and>
                 (?o # outs) ! i = Inr (to_representation v instance))"
    proof (intro allI impI)
      fix i assume "i < length (x # xs)"
      then show "(\<exists>detail. validate v ((s # ss) ! i) ((x # xs) ! i) = Inl (ValidationError detail) \<and>
                 (s # ss) ! Suc i = (s # ss) ! i \<and>
                 (?o # outs) ! i = Inl (JDict [(''detail'', JStr detail), (''source'', (x # xs) ! i)])) \<or>
              (\<exists>serializer instance. validate v ((s # ss) ! i) ((x # xs) ! i) = Inr serializer \<and>
                 perform_create v serializer ((s # ss) ! i) = (Inr instance, (s # ss) ! Suc i) \<and>
                 (?o # outs) ! i = Inr (to_representation v instance))"
        using steps invalid(1,2) hd0 by (cases i) auto
    qed
    with tr invalid ne show ?thesis
      by (intro exI [of _ "s # ss"] exI [of _ "?o # outs"]) simp
  next
    case valid
    let ?o = "Inr (to_representation v inst) :: jval + jval"
    have "\<forall>i < length (x # xs).
              (\<exists>detail. validate v ((s # ss) ! i) ((x # xs) ! i) = Inl (ValidationError detail) \<and>
                 (s # ss) ! Suc i = (s # ss) ! i \<and>
                 (?o # outs) ! i = Inl (JDict [(''detail'', JStr detail), (''source'', (x # xs) ! i)])) \<or>
              (\<exists>serializer instance. validate v ((s # ss) ! i) ((x # xs) ! i) = Inr serializer \<and>
                 perform_create v serializer ((s # ss) ! i) = (Inr instance, (s # ss) ! Suc i) \<and>
                 (?o # outs) ! i = Inr (to_representation v instance))"
    proof (intro allI impI)
      fix i assume "i < length (x # xs)"
      then show "(\<exists>detail. validate v ((s # ss) ! i) ((x # xs) ! i) = Inl (ValidationError detail) \<and>
                 (s # ss) ! Suc i = (s # ss) ! i \<and>
                 (?o # outs) ! i = Inl (JDict [(''detail'', JStr detail), (''source'', (x # xs) ! i)])) \<or>
              (\<exists>serializer instance. validate v ((s # ss) ! i) ((x # xs) ! i) = Inr serializer \<and>
                 perform_create v serializer ((s # ss) ! i) = (Inr instance, (s # ss) ! Suc i) \<and>
                 (?o # outs) ! i = Inr (to_representation v instance))"
        using steps valid(1,2) hd0 by (cases i) auto
    qed
    with tr valid ne show ?thesis
      by (intro exI [of _ "s # ss"] exI [of _ "?o # outs"]) simp
  qed
qed

subsection \<open>The second loop and the response\<close>

lemma create_entry_returns:
  assumes "\<forall>st e ex. validate v st e = Inl ex \<longrightarrow> (\<exists>detail. ex = ValidationError detail)"
    and "\<forall>serializer st. \<exists>inst st'. perform_create v serializer st = (Inr inst, st')"
  shows "\<exists>acc' s'. create_entry v entry acc s = (Inr acc', s')"
proof -
  obtain items errors sers where acc: "acc = (items, errors, sers)" by (metis prod_cases3)
  show ?thesis
  proof (cases "validate v s entry")
    case (Inl ex)
    with assms(1) obtain detail where "validate v s entry = Inl (ValidationError detail)" by blast
    then show ?thesis by (simp add: acc create_entry_invalid)
  next
    case (Inr serializer)
    from assms(2) obtain inst st' where "perform_create v serializer s = (Inr inst, st')" by blast
    with Inr show ?thesis by (simp add: acc create_entry_def)
  qed
qed

lemma create_loop_returns:
  assumes "\<forall>st e ex. validate v st e = Inl ex \<longrightarrow> (\<exists>detail. ex = ValidationError detail)"
    and "\<forall>serializer st. \<exists>inst st'. perform_create v serializer st = (Inr inst, st')"
  shows "\<exists>acc' s'. create_loop v entries acc s = (Inr acc', s')"
proof (induction entries arbitrary: acc s)
  case Nil
  show ?case by (intro exI) (rule create_loop.simps(1))
next
  case (Cons entry entries)
  from create_entry_returns [OF assms, of entry acc s]
  obtain acc1 s1 where "create_entry v entry acc s = (Inr acc1, s1)" by blast
  with Cons.IH [of acc1 s1] show ?case by simp
qed

lemma create_all_returns:
  assumes "\<forall>serializer st. \<exists>inst st'. perform_create v serializer st = (Inr inst, st')"
  shows "\<exists>items' s'. create_all v sers items s = (Inr items', s')"
proof (induction sers arbitrary: items s)
  case Nil
  show ?case by simp
next
  case (Cons serializer sers)
  from assms obtain inst s1 where "perform_create v serializer s = (Inr inst, s1)" by blast
  with Cons.IH [of "items @ [to_representation v inst]" s1] show ?case by simp
qed

lemma create_response_status:
  "status (create_response v items errors) = (if errors = [] then 201 else 400)"
  by (simp add: create_response_def HTTP_201_CREATED_def HTTP_400_BAD_REQUEST_def)

lemma create_response_body:
  "body (create_response v items errors) =
     JDict (if errors = [] then sideload v items
            else setitem (sideload v items) ''errors'' (JList errors))"
  by (simp add: create_response_def)

text \<open>How \<open>_create_many\<close> ends, by the mode, once the first loop has ended normally.\<close>

lemma create_many_partial:
  assumes "ENABLE_BULK_PARTIAL_CREATION v"
  shows "create_many v (JList entries) s =
     (case create_loop v entries ([], [], []) s of
        (Inl e, s') \<Rightarrow> (Inl e, s')
      | (Inr (items, errors, sers), s') \<Rightarrow> (Inr (create_response v items errors), s'))"
  using assms by (simp add: create_many_def py_iter_def split: prod.splits sum.splits)

lemma create_many_strict:
  assumes "\<not> ENABLE_BULK_PARTIAL_CREATION v"
  shows "create_many v (JList entries) s =
     (case create_loop v entries ([], [], []) s of
        (Inl e, s') \<Rightarrow> (Inl e, s')
      | (Inr (items, errors, sers), s') \<Rightarrow>
          if errors = [] then
            (case create_all v sers items s' of
               (Inl e, s'') \<Rightarrow> (Inl e, s'')
             | (Inr items', s'') \<Rightarrow> (Inr (create_response v items' errors), s''))
          else (Inr (create_response v items errors), s'))"
  using assms by (simp add: create_many_def py_iter_def split: prod.splits sum.splits)

text \<open>
  C2. Whenever \<open>_create_many\<close> answers a list payload, its status is 201 exactly when the
  list \<open>errors\<close> is empty, and 400 otherwise; the body is what the sideloading processor
  makes of the created items, with the key \<open>errors\<close> set to the list when it is not
  empty. With partial creation enabled the items are the entries created on the way and
  \<open>errors\<close> holds, in the payload's order, one entry \<open>{detail, source}\<close> for each entry
  whose validation raised \<open>ValidationError\<close> (\<open>outs\<close> gives the outcome of each entry and
  \<open>ss\<close> the stores it was validated against); with partial creation disabled \<open>errors\<close>
  holds one such entry for each entry that fails against the store the request started
  from, and nothing is created beside an error. The request is answered whenever
  validation raises nothing but \<open>ValidationError\<close> and \<open>perform_create\<close> does not raise.
\<close>

theorem create_many_status:
  "(\<forall>r s'. create_many v (JList entries) s = (Inr r, s') \<longrightarrow>
      (\<exists>items errors.
         (status r = 201 \<longleftrightarrow> errors = []) \<and>
         (errors \<noteq> [] \<longrightarrow> status r = 400) \<and>
         body r = JDict (if errors = [] then sideload v items
                         else setitem (sideload v items) ''errors'' (JList errors)) \<and>
         (ENABLE_BULK_PARTIAL_CREATION v \<longrightarrow>
            (\<exists>ss outs. length ss = length entries + 1 \<and> length outs = length entries \<and>
               hd ss = s \<and> last ss = s' \<and>
               items = concat (map (\<lambda>out. case out of Inl err \<Rightarrow> [] | Inr item \<Rightarrow> [item]) outs) \<and>
               errors = concat (map (\<lambda>out. case out of Inl err \<Rightarrow> [err] | Inr item \<Rightarrow> []) outs) \<and>
               (\<forall>i < length entries.
                  (\<exists>detail. validate v (ss ! i) (entries ! i) = Inl (ValidationError detail) \<and>
                     ss ! Suc i = ss ! i \<and>
                     outs ! i = Inl (JDict [(''detail'', JStr detail), (''source'', entries ! i)])) \<or>
                  (\<exists>serializer inst. validate v (ss ! i) (entries ! i) = Inr serializer \<and>
                     perform_create v serializer (ss ! i) = (Inr inst, ss ! Suc i) \<and>
                     outs ! i = Inr (to_representation v inst))))) \<and>
         (\<not> ENABLE_BULK_PARTIAL_CREATION v \<longrightarrow>
            errors = concat (map (\<lambda>entry.
              case validate v s entry of
                Inl (ValidationError detail) \<Rightarrow> [JDict [(''detail'', JStr detail), (''source'', entry)]]
              | _ \<Rightarrow> []) entries) \<and>
            (errors \<noteq> [] \<longrightarrow> items = [] \<and> s' = s)))) \<and>
   ((\<forall>st e ex. validate v st e = Inl ex \<longrightarrow> (\<exists>detail. ex = ValidationError detail)) \<and>
    (\<forall>serializer st. \<exists>inst st'. perform_create v serializer st = (Inr inst, st')) \<longrightarrow>
      (\<exists>r s'. create_many v (JList entries) s = (Inr r, s')))"
proof (intro conjI allI impI)
  fix r s'
  assume ret: "create_many v (JList entries) s = (Inr r, s')"
  show "\<exists>items errors.
         (status r = 201 \<longleftrightarrow> errors = []) \<and>
         (errors \<noteq> [] \<longrightarrow> status r = 400) \<and>
         body r = JDict (if errors = [] then sideload v items
                         else setitem (sideload v items) ''errors'' (JList errors)) \<and>
         (ENABLE_BULK_PARTIAL_CREATION v \<longrightarrow>
            (\<exists>ss outs. length ss = length entries + 1 \<and> length outs = length entries \<and>
               hd ss = s \<and> last ss = s' \<and>
               items = concat (map (\<lambda>out. case out of Inl err \<Rightarrow> [] | Inr item \<Rightarrow> [item]) outs) \<and>
               errors = concat (map (\<lambda>out. case out of Inl err \<Rightarrow> [err] | Inr item \<Rightarrow> []) outs) \<and>
               (\<forall>i < length entries.
                  (\<exists>detail. validate v (ss ! i) (entries ! i) = Inl (ValidationError detail) \<and>
                     ss ! Suc i = ss ! i \<and>
                     outs ! i = Inl (JDict [(''detail'', JStr detail), (''source'', entries ! i)])) \<or>
                  (\<exists>serializer inst. validate v (ss ! i) (entries ! i) = Inr serializer \<and>
                     perform_create v serializer (ss ! i) = (Inr inst, ss ! Suc i) \<and>
                     outs ! i = Inr (to_representation v inst))))) \<and>
         (\<not> ENABLE_BULK_PARTIAL_CREATION v \<longrightarrow>
            errors = concat (map (\<lambda>entry.
              case validate v s entry of
                Inl (ValidationError detail) \<Rightarrow> [JDict [(''detail'', JStr detail), (''source'', entry)]]
              | _ \<Rightarrow> []) entries) \<and>
            (errors \<noteq> [] \<longrightarrow> items = [] \<and> s' = s))"
  proof (cases "ENABLE_BULK_PARTIAL_CREATION v")
    case True
    from ret obtain items errors sers where loop: "create_loop v entries ([], [], []) s = (Inr (items, errors, sers), s')"
      and r: "r = create_response v items errors"
      by (auto simp: create_many_partial [OF True] split: prod.splits sum.splits)
    have st: "status r = 201 \<longleftrightarrow> errors = []" "errors \<noteq> [] \<longrightarrow> status r = 400"
      "body r = JDict (if errors = [] then sideload v items
                         else setitem (sideload v items) ''errors'' (JList errors))"
      by (simp_all add: r create_response_status create_response_body)
    from create_loop_partial_trace [OF True loop] obtain ss outs where
      t: "length ss = length entries + 1" "length outs = length entries" "hd ss = s" "last ss = s'"
        "items = [] @ concat (map (\<lambda>out. case out of Inl err \<Rightarrow> [] | Inr item \<Rightarrow> [item]) outs)"
        "errors = [] @ concat (map (\<lambda>out. case out of Inl err \<Rightarrow> [err] | Inr item \<Rightarrow> []) outs)"
      and steps: "\<forall>i < length entries.
                  (\<exists>detail. validate v (ss ! i) (entries ! i) = Inl (ValidationError detail) \<and>
                     ss ! Suc i = ss ! i \<and>
                     outs ! i = Inl (JDict [(''detail'', JStr detail), (''source'', entries ! i)])) \<or>
                  (\<exists>serializer inst. validate v (ss ! i) (entries ! i) = Inr serializer \<and>
                     perform_create v serializer (ss ! i) = (Inr inst, ss ! Suc i) \<and>
                     outs ! i = Inr (to_representation v inst))"
      by blast
    have tr: "\<exists>ss outs. length ss = length entries + 1 \<and> length outs = length entries \<and>
               hd ss = s \<and> last ss = s' \<and>
               items = concat (map (\<lambda>out. case out of Inl err \<Rightarrow> [] | Inr item \<Rightarrow> [item]) outs) \<and>
               errors = concat (map (\<lambda>out. case out of Inl err \<Rightarrow> [err] | Inr item \<Rightarrow> []) outs) \<and>
               (\<forall>i < length entries.
                  (\<exists>detail. validate v (ss ! i) (entries ! i) = Inl (ValidationError detail) \<and>
                     ss ! Suc i = ss ! i \<and>
                     outs ! i = Inl (JDict [(''detail'', JStr detail), (''source'', entries ! i)])) \<or>
                  (\<exists>serializer inst. validate v (ss ! i) (entries ! i) = Inr serializer \<and>
                     perform_create v serializer (ss ! i) = (Inr inst, ss ! Suc i) \<and>
                     outs ! i = Inr (to_representation v inst)))"
    proof (intro exI [of _ ss] exI [of _ outs] conjI)
      show "\<forall>i < length entries.
                  (\<exists>detail. validate v (ss ! i) (entries ! i) = Inl (ValidationError detail) \<and>
                     ss ! Suc i = ss ! i \<and>
                     outs ! i = Inl (JDict [(''detail'', JStr detail), (''source'', entries ! i)])) \<or>
                  (\<exists>serializer inst. validate v (ss ! i) (entries ! i) = Inr serializer \<and>
                     perform_create v serializer (ss ! i) = (Inr inst, ss ! Suc i) \<and>
                     outs ! i = Inr (to_representation v inst))"
        by (rule steps)
    qed (use t in simp_all)
    show ?thesis
    proof (rule exI [of _ items], rule exI [of _ errors], intro conjI impI)
      assume "\<not> ENABLE_BULK_PARTIAL_CREATION v"
      with True show "errors = concat (map (\<lambda>entry.
              case validate v s entry of
                Inl (ValidationError detail) \<Rightarrow> [JDict [(''detail'', JStr detail), (''source'', entry)]]
              | _ \<Rightarrow> []) entries)" by simp
    next
      assume "\<not> ENABLE_BULK_PARTIAL_CREATION v"
      with True show "items = []" by simp
    next
      assume "\<not> ENABLE_BULK_PARTIAL_CREATION v"
      with True show "s' = s" by simp
    qed (use st tr in simp_all)
  next
    case False
    from ret obtain items errors sers s1 where loop: "create_loop v entries ([], [], []) s = (Inr (items, errors, sers), s1)"
      by (auto simp: create_many_strict [OF False] split: prod.splits sum.splits)
    from create_loop_strict [OF False loop] have st: "s1 = s" "items = []"
      "errors = concat (map (\<lambda>entry.
              case validate v s entry of
                Inl (ValidationError detail) \<Rightarrow> [JDict [(''detail'', JStr detail), (''source'', entry)]]
              | _ \<Rightarrow> []) entries)"
      by simp_all
    show ?thesis
    proof (cases "errors = []")
      case True
      with ret loop obtain items' where r: "r = create_response v items' errors"
        by (auto simp: create_many_strict [OF False] split: prod.splits sum.splits)
      have f: "status r = 201 \<longleftrightarrow> errors = []" "errors \<noteq> [] \<longrightarrow> status r = 400"
        "body r = JDict (if errors = [] then sideload v items'
                         else setitem (sideload v items') ''errors'' (JList errors))"
        "errors \<noteq> [] \<longrightarrow> items' = [] \<and> s' = s"
        by (simp_all add: r True create_response_status create_response_body)
      show ?thesis
        by (rule exI [of _ items'], rule exI [of _ errors]) (use False st(3) f in blast)
    next
      case nonempty: False
      with ret loop have r: "r = create_response v items errors" and s': "s' = s1"
        by (auto simp: create_many_strict [OF False])
      have f: "status r = 201 \<longleftrightarrow> errors = []" "errors \<noteq> [] \<longrightarrow> status r = 400"
        "body r = JDict (if errors = [] then sideload v items
                         else setitem (sideload v items) ''errors'' (JList errors))"
        "errors \<noteq> [] \<longrightarrow> items = [] \<and> s' = s"
        by (simp_all add: r s' st(1,2) create_response_status create_response_body)
      show ?thesis
        by (rule exI [of _ items], rule exI [of _ errors]) (use False st(3) f in blast)
    qed
  qed
next
  assume total: "(\<forall>st e ex. validate v st e = Inl ex \<longrightarrow> (\<exists>detail. ex = ValidationError detail)) \<and>
    (\<forall>serializer st. \<exists>inst st'. perform_create v serializer st = (Inr inst, st'))"
  then have val: "\<forall>st e ex. validate v st e = Inl ex \<longrightarrow> (\<exists>detail. ex = ValidationError detail)"
    and pc: "\<forall>serializer st. \<exists>inst st'. perform_create v serializer st = (Inr inst, st')"
    by blast+
  from create_loop_returns [OF val pc, of entries "([], [], [])" s]
  obtain items errors sers s1 where loop: "create_loop v entries ([], [], []) s = (Inr (items, errors, sers), s1)"
    by (metis prod_cases3)
  from create_all_returns [OF pc, of sers items s1]
  obtain items' s2 where all: "create_all v sers items s1 = (Inr items', s2)" by blast
  show "\<exists>r s'. create_many v (JList entries) s = (Inr r, s')"
    using loop all by (simp add: create_many_def py_iter_def)
qed

subsection \<open>What is persisted, and when\<close>

lemma create_entry_strict_perform_create:
  "\<not> ENABLE_BULK_PARTIAL_CREATION v \<Longrightarrow>
     create_entry (v\<lparr>perform_create := pc\<rparr>) entry acc s = create_entry v entry acc s"
  by (simp add: create_entry_def split: prod.splits sum.splits exn.splits)

lemma create_loop_strict_perform_create:
  "\<not> ENABLE_BULK_PARTIAL_CREATION v \<Longrightarrow>
     create_loop (v\<lparr>perform_create := pc\<rparr>) entries acc s = create_loop v entries acc s"
  by (induction entries arbitrary: acc s)
     (auto simp: create_entry_strict_perform_create split: prod.splits sum.splits)

lemma create_loop_strict_validated:
  assumes "\<not> ENABLE_BULK_PARTIAL_CREATION v"
    and "create_loop v entries acc s = (Inr acc', s')"
  shows "\<forall>entry \<in> set entries.
           (\<exists>detail. validate v s entry = Inl (ValidationError detail)) \<or>
           (\<exists>serializer. validate v s entry = Inr serializer)"
  using assms(2)
proof (induction entries arbitrary: acc)
  case Nil
  show ?case by simp
next
  case (Cons x xs)
  from Cons.prems obtain acc1 s1 where step: "create_entry v x acc s = (Inr acc1, s1)"
    and rest: "create_loop v xs acc1 s1 = (Inr acc', s')"
    by (auto split: prod.splits sum.splits)
  from create_entry_strict_store [OF assms(1), of x acc s] step have s1: "s1 = s" by simp
  obtain i0 e0 r0 where acc: "acc = (i0, e0, r0)" by (metis prod_cases3)
  from create_entry_cases [OF step [unfolded acc]]
  have here: "(\<exists>detail. validate v s x = Inl (ValidationError detail)) \<or>
           (\<exists>serializer. validate v s x = Inr serializer)"
    by blast
  from Cons.IH [OF rest [unfolded s1]] here show ?case by simp
qed

lemma create_loop_strict_returns:
  assumes "\<not> ENABLE_BULK_PARTIAL_CREATION v"
    and "\<forall>entry \<in> set entries. \<forall>ex. validate v s entry = Inl ex \<longrightarrow> (\<exists>detail. ex = ValidationError detail)"
  shows "\<exists>acc'. create_loop v entries acc s = (Inr acc', s)"
  using assms(2)
proof (induction entries arbitrary: acc)
  case Nil
  show ?case by (intro exI) (rule create_loop.simps(1))
next
  case (Cons x xs)
  obtain i0 e0 r0 where acc: "acc = (i0, e0, r0)" by (metis prod_cases3)
  have "\<exists>acc1. create_entry v x acc s = (Inr acc1, s)"
  proof (cases "validate v s x")
    case (Inl ex)
    with Cons.prems obtain detail where "validate v s x = Inl (ValidationError detail)" by auto
    then show ?thesis by (simp add: acc create_entry_invalid)
  next
    case (Inr serializer)
    with assms(1) show ?thesis by (simp add: acc create_entry_valid_strict)
  qed
  then obtain acc1 where "create_entry v x acc s = (Inr acc1, s)" by blast
  moreover from Cons.prems Cons.IH [of acc1] obtain acc' where "create_loop v xs acc1 s = (Inr acc', s)"
    by auto
  ultimately show ?case by (intro exI [of _ acc']) simp
qed

lemma failed_entry_reported:
  assumes "entry \<in> set entries" and "validate v s entry = Inl (ValidationError detail)"
  shows "concat (map (\<lambda>entry.
            case validate v s entry of
              Inl (ValidationError detail) \<Rightarrow> [JDict [(''detail'', JStr detail), (''source'', entry)]]
            | _ \<Rightarrow> []) entries) \<noteq> []"
proof -
  have "(case validate v s entry of
              Inl (ValidationError detail) \<Rightarrow> [JDict [(''detail'', JStr detail), (''source'', entry)]]
            | _ \<Rightarrow> []) \<noteq> []"
    by (simp add: assms(2))
  with assms(1) show ?thesis by (auto simp del: list.simps)
qed

text \<open>A batch with a failing entry, partial creation disabled: the outcome.\<close>

lemma create_many_strict_failed:
  assumes "\<not> ENABLE_BULK_PARTIAL_CREATION v"
    and "entry \<in> set entries" and "validate v s entry = Inl (ValidationError detail)"
  shows "(\<exists>e. create_many v (JList entries) s = (Inl e, s) \<and>
              create_loop v entries ([], [], []) s = (Inl e, s)) \<or>
         (\<exists>items errors sers. errors \<noteq> [] \<and>
              create_loop v entries ([], [], []) s = (Inr (items, errors, sers), s) \<and>
              create_many v (JList entries) s = (Inr (create_response v items errors), s))"
proof -
  from create_loop_strict_store [OF assms(1), of entries "([], [], [])" s]
  obtain x where x: "create_loop v entries ([], [], []) s = (x, s)"
    by (cases "create_loop v entries ([], [], []) s") auto
  show ?thesis
  proof (cases x)
    case (Inl e)
    with x show ?thesis by (simp add: create_many_strict [OF assms(1)])
  next
    case (Inr acc)
    obtain items errors sers where acc: "acc = (items, errors, sers)" by (metis prod_cases3)
    from create_loop_strict [OF assms(1) x [unfolded Inr acc]] failed_entry_reported [OF assms(2,3)]
    have "errors \<noteq> []" by simp
    with x Inr acc show ?thesis by (simp add: create_many_strict [OF assms(1)])
  qed
qed

text \<open>
  C3. With partial creation disabled, a batch in which an entry fails validation leaves
  the store as it was, and its outcome does not depend on \<open>perform_create\<close> (which is
  therefore never called); when validation raises nothing but \<open>ValidationError\<close> the
  outcome is a response with status 400. Every entry is validated against the store the
  request started from, so a request that changed the store found every entry valid
  before its first write. With partial creation enabled, a request that is answered has
  passed through the stores \<open>ss\<close>: each entry is validated against the store the earlier
  entries left, and one that is valid is created at once on that store, whether or not
  other entries fail; the writes stay in the final store.
\<close>

theorem create_many_persistence:
  "(\<not> ENABLE_BULK_PARTIAL_CREATION v \<longrightarrow>
      (\<forall>entry \<in> set entries. \<forall>detail. validate v s entry = Inl (ValidationError detail) \<longrightarrow>
          snd (create_many v (JList entries) s) = s \<and>
          (\<forall>pc. create_many (v\<lparr>perform_create := pc\<rparr>) (JList entries) s =
                create_many v (JList entries) s) \<and>
          ((\<forall>e \<in> set entries. \<forall>ex. validate v s e = Inl ex \<longrightarrow> (\<exists>d. ex = ValidationError d)) \<longrightarrow>
             (\<exists>r. create_many v (JList entries) s = (Inr r, s) \<and> status r = 400))) \<and>
      (\<forall>r s'. create_many v (JList entries) s = (Inr r, s') \<and> s' \<noteq> s \<longrightarrow>
          (\<forall>entry \<in> set entries. \<exists>serializer. validate v s entry = Inr serializer))) \<and>
   (ENABLE_BULK_PARTIAL_CREATION v \<longrightarrow>
      (\<forall>r s'. create_many v (JList entries) s = (Inr r, s') \<longrightarrow>
         (\<exists>ss. length ss = length entries + 1 \<and> hd ss = s \<and> last ss = s' \<and>
            (\<forall>i < length entries.
               (\<exists>detail. validate v (ss ! i) (entries ! i) = Inl (ValidationError detail) \<and>
                  ss ! Suc i = ss ! i) \<or>
               (\<exists>serializer inst. validate v (ss ! i) (entries ! i) = Inr serializer \<and>
                  perform_create v serializer (ss ! i) = (Inr inst, ss ! Suc i))))))"
proof (intro conjI impI ballI allI)
  fix entry detail
  assume strict: "\<not> ENABLE_BULK_PARTIAL_CREATION v" and mem: "entry \<in> set entries"
    and bad: "validate v s entry = Inl (ValidationError detail)"
  note out = create_many_strict_failed [OF strict mem bad]
  from out show "snd (create_many v (JList entries) s) = s" by auto
  show "create_many (v\<lparr>perform_create := pc\<rparr>) (JList entries) s = create_many v (JList entries) s" for pc
  proof -
    let ?w = "v\<lparr>perform_create := pc\<rparr>"
    have strict': "\<not> ENABLE_BULK_PARTIAL_CREATION ?w" using strict by simp
    have bad': "validate ?w s entry = Inl (ValidationError detail)" using bad by simp
    have resp: "create_response ?w items errors = create_response v items errors" for items errors
      by (simp add: create_response_def)
    from out create_many_strict_failed [OF strict' mem bad'] show ?thesis
      by (auto simp: create_loop_strict_perform_create [OF strict] resp)
  qed
  show "\<exists>r. create_many v (JList entries) s = (Inr r, s) \<and> status r = 400"
    if only: "\<forall>e \<in> set entries. \<forall>ex. validate v s e = Inl ex \<longrightarrow> (\<exists>d. ex = ValidationError d)"
  proof -
    from create_loop_strict_returns [OF strict only, of "([], [], [])"] out
    show ?thesis by (auto simp: create_response_status)
  qed
next
  fix r s' entry
  assume strict: "\<not> ENABLE_BULK_PARTIAL_CREATION v"
    and ret: "create_many v (JList entries) s = (Inr r, s') \<and> s' \<noteq> s" and mem: "entry \<in> set entries"
  from ret obtain items errors sers s1 where
    loop: "create_loop v entries ([], [], []) s = (Inr (items, errors, sers), s1)"
    by (auto simp: create_many_strict [OF strict] split: prod.splits sum.splits)
  from create_loop_strict [OF strict loop] have s1: "s1 = s" and errs: "errors =
      concat (map (\<lambda>entry.
            case validate v s entry of
              Inl (ValidationError detail) \<Rightarrow> [JDict [(''detail'', JStr detail), (''source'', entry)]]
            | _ \<Rightarrow> []) entries)"
    by simp_all
  have none: "errors = []"
  proof (rule ccontr)
    assume "errors \<noteq> []"
    with ret loop s1 show False by (auto simp: create_many_strict [OF strict])
  qed
  from create_loop_strict_validated [OF strict loop] mem
  consider (invalid) d where "validate v s entry = Inl (ValidationError d)"
    | (valid) serializer where "validate v s entry = Inr serializer"
    by blast
  then show "\<exists>serializer. validate v s entry = Inr serializer"
  proof cases
    case invalid
    from failed_entry_reported [OF mem invalid] errs none show ?thesis by simp
  next
    case valid
    then show ?thesis by blast
  qed
next
  fix r s'
  assume partial: "ENABLE_BULK_PARTIAL_CREATION v"
    and ret: "create_many v (JList entries) s = (Inr r, s')"
  from ret obtain items errors sers where
    loop: "create_loop v entries ([], [], []) s = (Inr (items, errors, sers), s')"
    by (auto simp: create_many_partial [OF partial] split: prod.splits sum.splits)
  from create_loop_partial_trace [OF partial loop] obtain ss outs where
    t: "length ss = length entries + 1" "hd ss = s" "last ss = s'"
    and steps: "\<forall>i < length entries.
              (\<exists>detail. validate v (ss ! i) (entries ! i) = Inl (ValidationError detail) \<and>
                 ss ! Suc i = ss ! i \<and>
                 outs ! i = Inl (JDict [(''detail'', JStr detail), (''source'', entries ! i)])) \<or>
              (\<exists>serializer inst. validate v (ss ! i) (entries ! i) = Inr serializer \<and>
                 perform_create v serializer (ss ! i) = (Inr inst, ss ! Suc i) \<and>
                 outs ! i = Inr (to_representation v inst))"
    by blast
  have "\<forall>i < length entries.
               (\<exists>detail. validate v (ss ! i) (entries ! i) = Inl (ValidationError detail) \<and>
                  ss ! Suc i = ss ! i) \<or>
               (\<exists>serializer inst. validate v (ss ! i) (entries ! i) = Inr serializer \<and>
                  perform_create v serializer (ss ! i) = (Inr inst, ss ! Suc i))"
  proof (intro allI impI)
    fix i assume "i < length entries"
    with steps show "(\<exists>detail. validate v (ss ! i) (entries ! i) = Inl (ValidationError detail) \<and>
                  ss ! Suc i = ss ! i) \<or>
               (\<exists>serializer inst. validate v (ss ! i) (entries ! i) = Inr serializer \<and>
                  perform_create v serializer (ss ! i) = (Inr inst, ss ! Suc i))"
      by blast
  qed
  with t show "\<exists>ss. length ss = length entries + 1 \<and> hd ss = s \<and> last ss = s' \<and>
            (\<forall>i < length entries.
               (\<exists>detail. validate v (ss ! i) (entries ! i) = Inl (ValidationError detail) \<and>
                  ss ! Suc i = ss ! i) \<or>
               (\<exists>serializer inst. validate v (ss ! i) (entries ! i) = Inr serializer \<and>
                  perform_create v serializer (ss ! i) = (Inr inst, ss ! Suc i)))"
    by (intro exI [of _ ss]) simp
qed

subsection \<open>The example batches\<close>

lemma demo_validate_raises:
  "demo_validate st e = Inl ex \<Longrightarrow> \<exists>detail. ex = ValidationError detail"
  by (auto simp: demo_validate_def split: jval.splits if_splits)

lemma demo_perform_create_total:
  "\<exists>inst st'. demo_perform_create serializer st = (Inr inst, st')"
  by (cases serializer) (simp_all add: demo_perform_create_def)

lemma demo_partial_batch:
  "create_many (demo_view True) (JList [entry_fido, entry_blank]) [rex] =
     (Inr \<lparr>body = JDict [(''dogs'', JList [entry_fido]), (''errors'', JList [blank_error])],
            status = 400\<rparr>,
      [rex, [(''name'', JStr ''Fido'')]])"
  by (simp add: create_many_def py_iter_def create_entry_def create_response_def demo_view_def
      demo_validate_def demo_perform_create_def entry_fido_def entry_blank_def blank_error_def
      HTTP_201_CREATED_def HTTP_400_BAD_REQUEST_def)

lemma demo_partial_batch_late:
  "create_many (demo_view True) (JList [entry_blank, entry_fido]) [rex] =
     (Inr \<lparr>body = JDict [(''dogs'', JList [entry_fido]), (''errors'', JList [blank_error])],
            status = 400\<rparr>,
      [rex, [(''name'', JStr ''Fido'')]])"
  by (simp add: create_many_def py_iter_def create_entry_def create_response_def demo_view_def
      demo_validate_def demo_perform_create_def entry_fido_def entry_blank_def blank_error_def
      HTTP_201_CREATED_def HTTP_400_BAD_REQUEST_def)

theorem create_many_status_witness:
  "create_many (demo_view True) (JList [entry_fido, entry_blank]) [rex] =
     (Inr \<lparr>body = JDict [(''dogs'', JList [entry_fido]), (''errors'', JList [blank_error])],
            status = 400\<rparr>,
      [rex, [(''name'', JStr ''Fido'')]]) \<and>
   (\<exists>items errors.
      errors \<noteq> [] \<and>
      JDict [(''dogs'', JList [entry_fido]), (''errors'', JList [blank_error])] =
        JDict (setitem (sideload (demo_view True :: (obj list, string option) view) items)
                 ''errors'' (JList errors))) \<and>
   (\<exists>r s'. create_many (demo_view True) (JList [entry_fido]) [rex] = (Inr r, s'))"
proof -
  let ?v = "demo_view True :: (obj list, string option) view"
  let ?r = "\<lparr>body = JDict [(''dogs'', JList [entry_fido]), (''errors'', JList [blank_error])],
            status = 400\<rparr>"
  note t = create_many_status [where v = ?v and s = "[rex]"]
  from t [where entries = "[entry_fido, entry_blank]", THEN conjunct1, rule_format, OF demo_partial_batch]
  obtain items errors where f: "status ?r = 201 \<longleftrightarrow> errors = []"
    "body ?r = JDict (if errors = [] then sideload ?v items
                     else setitem (sideload ?v items) ''errors'' (JList errors))"
    by blast
  from f(1) have ne: "errors \<noteq> []" by simp
  with f(2) have "JDict [(''dogs'', JList [entry_fido]), (''errors'', JList [blank_error])] =
        JDict (setitem (sideload ?v items) ''errors'' (JList errors))"
    by simp
  with ne have b: "\<exists>items errors.
      errors \<noteq> [] \<and>
      JDict [(''dogs'', JList [entry_fido]), (''errors'', JList [blank_error])] =
        JDict (setitem (sideload ?v items) ''errors'' (JList errors))"
    by blast
  have total: "(\<forall>st e ex. validate ?v st e = Inl ex \<longrightarrow> (\<exists>detail. ex = ValidationError detail)) \<and>
    (\<forall>serializer st. \<exists>inst st'. perform_create ?v serializer st = (Inr inst, st'))"
    using demo_validate_raises demo_perform_create_total by (simp add: demo_view_def)
  from t [where entries = "[entry_fido]", THEN conjunct2, rule_format, OF total]
  have c: "\<exists>r s'. create_many ?v (JList [entry_fido]) [rex] = (Inr r, s')" .
  from demo_partial_batch b c show ?thesis by blast
qed

theorem create_many_persistence_witness:
  "snd (create_many (demo_view False) (JList [entry_fido, entry_blank]) [rex]) = [rex] \<and>
   (\<exists>r. create_many (demo_view False) (JList [entry_fido, entry_blank]) [rex] = (Inr r, [rex]) \<and>
        status r = 400) \<and>
   (\<exists>ss. length ss = length [entry_blank, entry_fido] + 1 \<and> hd ss = [rex] \<and>
         last ss = [rex, [(''name'', JStr ''Fido'')]] \<and>
         (\<forall>i < length [entry_blank, entry_fido].
            (\<exists>detail. validate (demo_view True :: (obj list, string option) view) (ss ! i)
                         ([entry_blank, entry_fido] ! i) = Inl (ValidationError detail) \<and>
               ss ! Suc i = ss ! i) \<or>
            (\<exists>serializer inst.
               validate (demo_view True :: (obj list, string option) view) (ss ! i)
                 ([entry_blank, entry_fido] ! i) = Inr serializer \<and>
               perform_create (demo_view True :: (obj list, string option) view) serializer (ss ! i) =
                 (Inr inst, ss ! Suc i))))"
proof -
  let ?strict = "demo_view False :: (obj list, string option) view"
  let ?partial = "demo_view True :: (obj list, string option) view"
  have off: "\<not> ENABLE_BULK_PARTIAL_CREATION ?strict" and on: "ENABLE_BULK_PARTIAL_CREATION ?partial"
    by (simp_all add: demo_view_def)
  have mem: "entry_blank \<in> set [entry_fido, entry_blank]" by simp
  have bad: "validate ?strict [rex] entry_blank =
      Inl (ValidationError ''name: This field may not be blank.'')"
    by (simp add: demo_view_def demo_validate_def entry_blank_def)
  have only: "\<forall>e \<in> set [entry_fido, entry_blank]. \<forall>ex. validate ?strict [rex] e = Inl ex \<longrightarrow>
      (\<exists>d. ex = ValidationError d)"
    using demo_validate_raises by (simp add: demo_view_def)
  note t = create_many_persistence [where v = ?strict and s = "[rex]"
      and entries = "[entry_fido, entry_blank]", THEN conjunct1, THEN mp, OF off,
      THEN conjunct1, THEN bspec, OF mem, THEN spec, THEN mp, OF bad]
  from t have a: "snd (create_many ?strict (JList [entry_fido, entry_blank]) [rex]) = [rex]"
    by (rule conjunct1)
  from t [THEN conjunct2, THEN conjunct2, THEN mp, OF only]
  have b: "\<exists>r. create_many ?strict (JList [entry_fido, entry_blank]) [rex] = (Inr r, [rex]) \<and>
        status r = 400" .
  note c = create_many_persistence [where v = ?partial and s = "[rex]"
      and entries = "[entry_blank, entry_fido]", THEN conjunct2, THEN mp, OF on,
      THEN spec, THEN spec, THEN mp, OF demo_partial_batch_late]
  from a b c show ?thesis by (intro conjI)
qed

section \<open>Properties of the related-object endpoint\<close>

text \<open>
  C9. Once \<open>list_related\<close> has reached its query (no filter was requested, the
  include and exclude values parse, the relation is a field of the serializer and the
  query set could be built): when the query set, filtered to the root's key, has no first
  object, the response is \<open>Not found\<close> with status 404; when it has one and reading the
  relation from it raises \<open>ObjectDoesNotExist\<close>, the response is the empty object with
  status 200.
\<close>

theorem list_related_absent:
  assumes "object_feature (json_loads v) (features v) (query_params req) FILTER False = Inr flt"
    and "\<not> extracted_truthy flt"
    and "get_request_fields (features v)
           (related_params (features v) (query_params req) pk field_name) = Inr request_fields"
    and "map_of (serializer_fields v request_fields) field_name = Some fld"
    and "filtered_queryset v (related_params (features v) (query_params req) pk field_name) = Inr q"
  shows "(qs_first v q s = None \<longrightarrow>
            list_related v req pk field_name s = Inr \<lparr>body = JStr ''Not found'', status = 404\<rparr>) \<and>
         (\<forall>ob src m. qs_first v q s = Some ob \<and> source fld = Some src \<and>
            getattr_source v ob src s = Inl (ObjectDoesNotExist m) \<longrightarrow>
            list_related v req pk field_name s = Inr \<lparr>body = JDict [], status = 200\<rparr>)"
  using assms by (auto simp: list_related_def related_response_def)

lemma demo_related_params:
  "related_params demo_features [] pk ''owner'' =
     [(''filter{pk}'', [pk]), (''include[]'', [''owner.''])]"
  by (simp add: related_params_def prefix_inex_params_def array_feature_def demo_features_def
      getlist_def appendlist_def INCLUDE_def EXCLUDE_def DEBUG_def FILTER_def SORT_def
      SIDELOADING_def PATCH_ALL_def)

lemma demo_related_fields:
  "get_request_fields demo_features [(''filter{pk}'', [pk]), (''include[]'', [''owner.''])] =
     Inr [(''owner'', RMap [])]"
  by (simp add: get_request_fields_def array_feature_def demo_features_def getlist_def
      add_feature_fields_def add_field_def INCLUDE_def EXCLUDE_def DEBUG_def FILTER_def SORT_def
      SIDELOADING_def PATCH_ALL_def)

theorem list_related_absent_witness:
  "list_related (demo_view True) \<lparr>query_params = [], data = JNull\<rparr> ''9'' ''owner'' [rex, fido] =
     Inr \<lparr>body = JStr ''Not found'', status = 404\<rparr> \<and>
   list_related (demo_view True) \<lparr>query_params = [], data = JNull\<rparr> ''1'' ''owner'' [rex, fido] =
     Inr \<lparr>body = JDict [], status = 200\<rparr>"
proof -
  let ?v = "demo_view True :: (obj list, string option) view"
  let ?req = "\<lparr>query_params = [], data = JNull\<rparr>"
  have flt: "object_feature (json_loads ?v) (features ?v) (query_params ?req) FILTER False =
      Inr (Params_map [])"
    by (simp add: object_feature_def extract_object_params_def demo_view_def)
  have no: "\<not> extracted_truthy (Params_map [])" by simp
  have rf: "get_request_fields (features ?v)
      (related_params (features ?v) (query_params ?req) pk ''owner'') = Inr [(''owner'', RMap [])]" for pk
    using demo_related_fields [of pk] by (simp add: demo_view_def demo_related_params)
  have fld: "map_of (serializer_fields ?v [(''owner'', RMap [])]) ''owner'' =
      Some \<lparr>source = Some ''owner'', read_only = False, immutable = False\<rparr>"
    by (simp add: demo_view_def demo_fields_def)
  have q: "filtered_queryset ?v (related_params (features ?v) (query_params ?req) pk ''owner'') =
      Inr (Some pk)" for pk
    by (simp add: demo_view_def demo_related_params qget_def)
  have none: "qs_first ?v (Some ''9'') [rex, fido] = None"
    by (simp add: demo_view_def demo_selects_def rex_def fido_def)
  have some: "qs_first ?v (Some ''1'') [rex, fido] = Some rex"
    by (simp add: demo_view_def demo_selects_def rex_def fido_def)
  have gone: "getattr_source ?v rex ''owner'' [rex, fido] =
      Inl (ObjectDoesNotExist ''Owner matching query does not exist.'')"
    by (simp add: demo_view_def rex_def)
  have a: "list_related ?v ?req ''9'' ''owner'' [rex, fido] =
     Inr \<lparr>body = JStr ''Not found'', status = 404\<rparr>"
    using list_related_absent [OF flt no rf fld q, of "''9''" "[rex, fido]"] none by simp
  have b: "list_related ?v ?req ''1'' ''owner'' [rex, fido] =
     Inr \<lparr>body = JDict [], status = 200\<rparr>"
    using list_related_absent [OF flt no rf fld q, of "''1''" "[rex, fido]", THEN conjunct2,
        rule_format, of rex "''owner''" "''Owner matching query does not exist.''"] some gone
    by simp
  from a b show ?thesis by (rule conjI)
qed

section \<open>Properties of the dispatch on the payload\<close>

text \<open>\<open>_patch_all\<close> on a list: the query set is built, then the payload is refused.\<close>

lemma patch_all_rejects_list:
  "patch_all v req (JList xs) query s =
     (case filtered_queryset v (query_params req) of
        Inl e \<Rightarrow> (Inl e, s)
      | Inr queryset \<Rightarrow> (Inl (ValidationError ''Patch-all data must be in object form''), s))"
  by (cases "filtered_queryset v (query_params req)")
     (simp_all add: patch_all_def validate_patch_all_def)

text \<open>
  C10, as the code has it. For a payload that is the empty list \<open>_get_bulk_payload\<close>
  returns that list; \<open>create\<close> and \<open>destroy\<close> find it falsy and take their singular path
  (for \<open>destroy\<close>: status 405 when the lookup keyword is not among the URL's keyword
  arguments, \<open>super().destroy\<close> otherwise). \<open>update\<close> takes its singular path when bulk
  update is disabled. When bulk update is enabled, \<open>update\<close> first parses the \<open>patch-all\<close>
  parameter, whether patch-all is enabled or not:
  \<^item> a value that does not parse raises the \<open>ParseError\<close> of \<open>get_request_patch_all\<close>;
  \<^item> when the parameter is absent or empty, or it parses and patch-all is disabled,
    \<open>update\<close> takes its singular path;
  \<^item> when it parses to a mode and patch-all is enabled, the empty list goes to
    \<open>_patch_all\<close>, which raises: the exception of the query set if building it fails,
    otherwise the \<open>ValidationError\<close> that the data must be in object form.

  In the two cases that raise, the store is as it was; and in no case is a bulk
  operation run on the empty list.
\<close>

theorem empty_list_not_bulk:
  "get_bulk_payload (plural_name v) (JList []) = Inr (Some (JList [])) \<and>
   (data req = JList [] \<longrightarrow>
      create v req s = super_create v req s \<and>
      destroy v req kwargs s =
        (if lookup_kwarg v \<notin> set kwargs then (Inr \<lparr>body = JNull, status = 405\<rparr>, s)
         else super_destroy v req kwargs s) \<and>
      update v req kwargs s =
        (if \<not> ENABLE_BULK_UPDATE v then singular_update v req kwargs s
         else
           (case get_request_patch_all (lower v) (is_truthy v) (features v) (query_params req) of
              Inl e \<Rightarrow> (Inl e, s)
            | Inr None \<Rightarrow> singular_update v req kwargs s
            | Inr (Some mode) \<Rightarrow>
                if \<not> ENABLE_PATCH_ALL v then singular_update v req kwargs s
                else
                  (case filtered_queryset v (query_params req) of
                     Inl e \<Rightarrow> (Inl e, s)
                   | Inr queryset \<Rightarrow>
                       (Inl (ValidationError ''Patch-all data must be in object form''), s)))))"
proof (intro conjI impI)
  show "get_bulk_payload (plural_name v) (JList []) = Inr (Some (JList []))"
    by (simp add: get_bulk_payload_def)
next
  assume "data req = JList []"
  then show "create v req s = super_create v req s"
    by (simp add: create_def get_bulk_payload_def)
next
  assume "data req = JList []"
  then show "destroy v req kwargs s =
        (if lookup_kwarg v \<notin> set kwargs then (Inr \<lparr>body = JNull, status = 405\<rparr>, s)
         else super_destroy v req kwargs s)"
    by (simp add: destroy_def get_bulk_payload_def HTTP_405_METHOD_NOT_ALLOWED_def)
next
  assume d: "data req = JList []"
  show "update v req kwargs s =
        (if \<not> ENABLE_BULK_UPDATE v then singular_update v req kwargs s
         else
           (case get_request_patch_all (lower v) (is_truthy v) (features v) (query_params req) of
              Inl e \<Rightarrow> (Inl e, s)
            | Inr None \<Rightarrow> singular_update v req kwargs s
            | Inr (Some mode) \<Rightarrow>
                if \<not> ENABLE_PATCH_ALL v then singular_update v req kwargs s
                else
                  (case filtered_queryset v (query_params req) of
                     Inl e \<Rightarrow> (Inl e, s)
                   | Inr queryset \<Rightarrow>
                       (Inl (ValidationError ''Patch-all data must be in object form''), s))))"
  proof (cases "get_request_patch_all (lower v) (is_truthy v) (features v) (query_params req)")
    case (Inl e)
    then show ?thesis by (simp add: update_def)
  next
    case (Inr mode)
    show ?thesis
    proof (cases mode)
      case None
      with Inr d show ?thesis by (simp add: update_def get_bulk_payload_def)
    next
      case (Some m)
      with Inr d show ?thesis
        by (simp add: update_def get_bulk_payload_def patch_all_rejects_list)
    qed
  qed
qed

lemma demo_no_patch_all:
  "get_request_patch_all (lower (demo_view True :: (obj list, string option) view))
     (is_truthy (demo_view True :: (obj list, string option) view))
     (features (demo_view True :: (obj list, string option) view)) [] = Inr None"
  by (simp add: get_request_patch_all_def single_feature_def qget_def)

lemma demo_patch_all_query:
  "get_request_patch_all lower_ascii is_truthy_doc demo_features [(''patch-all'', [''query''])] =
     Inr (Some Query_mode)"
  by (simp add: get_request_patch_all_def single_feature_def qget_def
      demo_features_def PATCH_ALL_def lower_ascii_def lower_char_def)

lemma demo_patch_all_zero:
  "get_request_patch_all lower_ascii is_truthy_doc demo_features [(''patch-all'', [''0''])] =
     Inl (ParseError (dq @ ''0'' @ dq @ '' is not valid for patch-all''))"
  by (simp add: get_request_patch_all_def single_feature_def qget_def
      demo_features_def PATCH_ALL_def lower_ascii_def lower_char_def is_truthy_doc_def)

text \<open>
  The example view set on the empty list: \<open>create\<close> and \<open>update\<close> go to the parent class,
  \<open>destroy\<close> without a lookup keyword answers 405, \<open>update\<close> with \<open>patch-all=query\<close> raises
  the error of \<open>_patch_all\<close>, and \<open>update\<close> with \<open>patch-all=0\<close> raises the \<open>ParseError\<close> also
  when patch-all is disabled.
\<close>

theorem empty_list_not_bulk_witness:
  "create (demo_view True) \<lparr>query_params = [], data = JList []\<rparr> [rex] =
     super_create (demo_view True) \<lparr>query_params = [], data = JList []\<rparr> [rex] \<and>
   destroy (demo_view True) \<lparr>query_params = [], data = JList []\<rparr> [] [rex] =
     (Inr \<lparr>body = JNull, status = 405\<rparr>, [rex]) \<and>
   update (demo_view True) \<lparr>query_params = [], data = JList []\<rparr> [''pk''] [rex] =
     singular_update (demo_view True) \<lparr>query_params = [], data = JList []\<rparr> [''pk''] [rex] \<and>
   update (demo_view True) \<lparr>query_params = [(''patch-all'', [''query''])], data = JList []\<rparr>
     [''pk''] [rex] =
     (Inl (ValidationError ''Patch-all data must be in object form''), [rex]) \<and>
   update ((demo_view True)\<lparr>ENABLE_PATCH_ALL := False\<rparr>)
     \<lparr>query_params = [(''patch-all'', [''query''])], data = JList []\<rparr> [''pk''] [rex] =
     singular_update ((demo_view True)\<lparr>ENABLE_PATCH_ALL := False\<rparr>)
       \<lparr>query_params = [(''patch-all'', [''query''])], data = JList []\<rparr> [''pk''] [rex] \<and>
   update ((demo_view True)\<lparr>ENABLE_PATCH_ALL := False\<rparr>)
     \<lparr>query_params = [(''patch-all'', [''0''])], data = JList []\<rparr> [''pk''] [rex] =
     (Inl (ParseError (dq @ ''0'' @ dq @ '' is not valid for patch-all'')), [rex])"
proof -
  let ?v = "demo_view True :: (obj list, string option) view"
  let ?off = "(demo_view True :: (obj list, string option) view)\<lparr>ENABLE_PATCH_ALL := False\<rparr>"
  let ?req = "\<lparr>query_params = [], data = JList []\<rparr>"
  let ?pa = "\<lparr>query_params = [(''patch-all'', [''query''])], data = JList []\<rparr>"
  let ?zero = "\<lparr>query_params = [(''patch-all'', [''0''])], data = JList []\<rparr>"
  have d: "data ?req = JList []" "data ?pa = JList []" "data ?zero = JList []" by simp_all
  have on: "ENABLE_BULK_UPDATE ?v" "ENABLE_PATCH_ALL ?v" "lower ?v = lower_ascii"
    "is_truthy ?v = is_truthy_doc" "features ?v = demo_features"
    "filtered_queryset ?v = (\<lambda>qp. Inr (qget qp ''filter{pk}''))"
    by (simp_all add: demo_view_def)
  have off: "ENABLE_BULK_UPDATE ?off" "\<not> ENABLE_PATCH_ALL ?off" "lower ?off = lower_ascii"
    "is_truthy ?off = is_truthy_doc" "features ?off = demo_features"
    by (simp_all add: demo_view_def)
  have none: "get_request_patch_all lower_ascii is_truthy_doc demo_features [] = Inr None"
    using demo_no_patch_all by (simp add: demo_view_def)
  note t = empty_list_not_bulk [where v = ?v and s = "[rex]" and req = ?req and kwargs = "[]",
      THEN conjunct2, THEN mp, OF d(1)]
  note u = empty_list_not_bulk [where v = ?v and s = "[rex]" and req = ?req and kwargs = "[''pk'']",
      THEN conjunct2, THEN mp, OF d(1)]
  note w = empty_list_not_bulk [where v = ?v and s = "[rex]" and req = ?pa and kwargs = "[''pk'']",
      THEN conjunct2, THEN mp, OF d(2)]
  note x = empty_list_not_bulk [where v = ?off and s = "[rex]" and req = ?pa and kwargs = "[''pk'']",
      THEN conjunct2, THEN mp, OF d(2)]
  note y = empty_list_not_bulk [where v = ?off and s = "[rex]" and req = ?zero and kwargs = "[''pk'']",
      THEN conjunct2, THEN mp, OF d(3)]
  have a: "create ?v ?req [rex] = super_create ?v ?req [rex]"
    using t [THEN conjunct1] .
  have b: "destroy ?v ?req [] [rex] = (Inr \<lparr>body = JNull, status = 405\<rparr>, [rex])"
    using t [THEN conjunct2, THEN conjunct1]
    by (simp add: lookup_kwarg_def demo_view_def)
  have c: "update ?v ?req [''pk''] [rex] = singular_update ?v ?req [''pk''] [rex]"
    using u [THEN conjunct2, THEN conjunct2] by (simp add: on none)
  have e: "update ?v ?pa [''pk''] [rex] =
      (Inl (ValidationError ''Patch-all data must be in object form''), [rex])"
    using w [THEN conjunct2, THEN conjunct2] by (simp add: on demo_patch_all_query)
  have f: "update ?off ?pa [''pk''] [rex] = singular_update ?off ?pa [''pk''] [rex]"
    using x [THEN conjunct2, THEN conjunct2] by (simp add: off demo_patch_all_query)
  have g: "update ?off ?zero [''pk''] [rex] =
      (Inl (ParseError (dq @ ''0'' @ dq @ '' is not valid for patch-all'')), [rex])"
    using y [THEN conjunct2, THEN conjunct2] by (simp add: off demo_patch_all_zero)
  from a b c e f g show ?thesis by (intro conjI)
qed

text \<open>
  C10 as stated fails for \<open>update\<close>: with bulk update and patch-all enabled and
  \<open>patch-all=query\<close>, the empty list goes to \<open>_patch_all\<close>, which refuses it, and the
  singular path is not taken. The outcome is that of \<open>_patch_all\<close> under two parent
  classes whose \<open>update\<close> differ, one that answers and one that refuses every request.
\<close>

theorem update_empty_list_counterexample:
  "update (demo_view True) \<lparr>query_params = [(''patch-all'', [''query''])], data = JList []\<rparr>
     [''pk''] [rex] =
     (Inl (ValidationError ''Patch-all data must be in object form''), [rex]) \<and>
   update ((demo_view True)\<lparr>super_update := refusing_super_update\<rparr>)
     \<lparr>query_params = [(''patch-all'', [''query''])], data = JList []\<rparr> [''pk''] [rex] =
     (Inl (ValidationError ''Patch-all data must be in object form''), [rex]) \<and>
   singular_update (demo_view True)
     \<lparr>query_params = [(''patch-all'', [''query''])], data = JList []\<rparr> [''pk''] [rex] \<noteq>
   singular_update ((demo_view True)\<lparr>super_update := refusing_super_update\<rparr>)
     \<lparr>query_params = [(''patch-all'', [''query''])], data = JList []\<rparr> [''pk''] [rex]"
  by (simp add: update_def patch_all_def validate_patch_all_def singular_update_def
      demo_view_def demo_super_update_def refusing_super_update_def demo_patch_all_query)

section \<open>Properties of the object-type features\<close>

text \<open>A key is skipped when it is the feature's name (and the raw form does not
  return) or does not start with the prefix.\<close>

lemma extract_step_malformed:
  assumes "k \<noteq> name" "startswith k (butlast name)" "\<not> endswith k ''}''" "\<not> endswith k ''}[]''"
  shows "extract_step jl name raw k vals =
           Stop (Inl (ParseError (dq @ k @ dq @ '' is not a well-formed filter key.'')))"
  using assms by (simp add: extract_step_def Let_def)

lemma extract_step_passes:
  assumes "\<not> (k \<noteq> name \<and> startswith k (butlast name) \<and> \<not> endswith k ''}'' \<and> \<not> endswith k ''}[]'')"
    and "raw \<longrightarrow> k = name \<longrightarrow> vals = []"
  shows "extract_step jl name raw k vals =
           (if k \<noteq> name \<and> startswith k (butlast name) then
              store_value
                (drop (length (butlast name))
                   (take (length k - (if endswith k ''}'' then 1 else 3)) k)) vals
            else Skip)"
  using assms by (auto simp: extract_step_def Let_def)

lemma extract_loop_malformed:
  assumes "\<forall>p \<in> set pre. \<not> (fst p \<noteq> name \<and> startswith (fst p) (butlast name) \<and>
             \<not> endswith (fst p) ''}'' \<and> \<not> endswith (fst p) ''}[]'')"
    and "raw \<longrightarrow> (\<forall>p \<in> set pre. fst p = name \<longrightarrow> snd p = [])"
    and "k \<noteq> name" "startswith k (butlast name)" "\<not> endswith k ''}''" "\<not> endswith k ''}[]''"
  shows "extract_loop jl name raw (pre @ (k, vals) # post) acc =
           Inl (ParseError (dq @ k @ dq @ '' is not a well-formed filter key.''))"
  using assms(1,2)
proof (induction pre arbitrary: acc)
  case Nil
  show ?case
    by (simp add: extract_step_malformed [OF assms(3-6)])
next
  case (Cons p pre)
  have step: "extract_step jl name raw (fst p) (snd p) =
           (if fst p \<noteq> name \<and> startswith (fst p) (butlast name) then
              store_value
                (drop (length (butlast name))
                   (take (length (fst p) - (if endswith (fst p) ''}'' then 1 else 3)) (fst p))) (snd p)
            else Skip)"
    using Cons.prems by (intro extract_step_passes) auto
  have rest: "extract_loop jl name raw (pre @ (k, vals) # post) acc' =
           Inl (ParseError (dq @ k @ dq @ '' is not a well-formed filter key.''))" for acc'
    using Cons.prems by (intro Cons.IH) auto
  show ?case
    by (simp add: step rest store_value_def)
qed

lemma extract_loop_well_formed:
  assumes "\<forall>p \<in> set qp. \<not> (fst p \<noteq> name \<and> startswith (fst p) (butlast name) \<and>
             \<not> endswith (fst p) ''}'' \<and> \<not> endswith (fst p) ''}[]'')"
  shows "extract_loop jl name False qp acc =
           Inr (Params_map (foldl (\<lambda>m p. setitem m
                  (drop (length (butlast name))
                     (take (length (fst p) - (if endswith (fst p) ''}'' then 1 else 3)) (fst p)))
                  (if endswith (drop (length (butlast name))
                        (take (length (fst p) - (if endswith (fst p) ''}'' then 1 else 3)) (fst p))) ''.in''
                   then expand_in (snd p) else snd p))
                acc (filter (\<lambda>p. fst p \<noteq> name \<and> startswith (fst p) (butlast name)) qp)))"
  using assms
proof (induction qp arbitrary: acc)
  case Nil
  show ?case by simp
next
  case (Cons p qp)
  have step: "extract_step jl name False (fst p) (snd p) =
           (if fst p \<noteq> name \<and> startswith (fst p) (butlast name) then
              store_value
                (drop (length (butlast name))
                   (take (length (fst p) - (if endswith (fst p) ''}'' then 1 else 3)) (fst p))) (snd p)
            else Skip)"
    using Cons.prems by (intro extract_step_passes) auto
  have rest: "\<forall>p \<in> set qp. \<not> (fst p \<noteq> name \<and> startswith (fst p) (butlast name) \<and>
             \<not> endswith (fst p) ''}'' \<and> \<not> endswith (fst p) ''}[]'')"
    using Cons.prems by simp
  show ?case
    by (simp add: step Cons.IH [OF rest] store_value_def)
qed

text \<open>In raw mode the loop returns at the first parameter named like the feature that
  has a value.\<close>

lemma extract_loop_raw_return:
  assumes "\<forall>p \<in> set pre. \<not> (fst p \<noteq> name \<and> startswith (fst p) (butlast name) \<and>
             \<not> endswith (fst p) ''}'' \<and> \<not> endswith (fst p) ''}[]'')"
    and "\<forall>p \<in> set pre. fst p = name \<longrightarrow> snd p = []"
    and "vals \<noteq> []"
  shows "extract_loop jl name True (pre @ (name, vals) # post) acc =
           (case jl (hd vals) of Inl e \<Rightarrow> Inl e | Inr j \<Rightarrow> Inr (Raw_object j))"
  using assms(1,2)
proof (induction pre arbitrary: acc)
  case Nil
  show ?case
    using assms(3) by (simp add: extract_step_def Let_def split: sum.splits)
next
  case (Cons p pre)
  have step: "extract_step jl name True (fst p) (snd p) =
           (if fst p \<noteq> name \<and> startswith (fst p) (butlast name) then
              store_value
                (drop (length (butlast name))
                   (take (length (fst p) - (if endswith (fst p) ''}'' then 1 else 3)) (fst p))) (snd p)
            else Skip)"
    using Cons.prems by (intro extract_step_passes) auto
  have rest: "extract_loop jl name True (pre @ (name, vals) # post) acc' =
           (case jl (hd vals) of Inl e \<Rightarrow> Inl e | Inr j \<Rightarrow> Inr (Raw_object j))" for acc'
    using Cons.prems by (intro Cons.IH) auto
  show ?case
    by (simp add: step rest store_value_def)
qed

text \<open>In raw mode without such a parameter the loop ends and the result is \<open>None\<close>.\<close>

lemma extract_loop_raw_none:
  assumes "\<forall>p \<in> set qp. \<not> (fst p \<noteq> name \<and> startswith (fst p) (butlast name) \<and>
             \<not> endswith (fst p) ''}'' \<and> \<not> endswith (fst p) ''}[]'')"
    and "\<forall>p \<in> set qp. fst p = name \<longrightarrow> snd p = []"
  shows "extract_loop jl name True qp acc = Inr No_params"
  using assms
proof (induction qp arbitrary: acc)
  case Nil
  show ?case by simp
next
  case (Cons p qp)
  have step: "extract_step jl name True (fst p) (snd p) =
           (if fst p \<noteq> name \<and> startswith (fst p) (butlast name) then
              store_value
                (drop (length (butlast name))
                   (take (length (fst p) - (if endswith (fst p) ''}'' then 1 else 3)) (fst p))) (snd p)
            else Skip)"
    using Cons.prems by (intro extract_step_passes) auto
  have rest: "extract_loop jl name True qp acc' = Inr No_params" for acc'
    using Cons.prems by (intro Cons.IH) auto
  show ?case
    by (simp add: step rest store_value_def)
qed

text \<open>
  C8, as the code has it. The keys are read in the order of the query string. A key is
  malformed when it is not the feature's name, starts with the prefix (the name without
  its closing brace) and ends with neither \<open>}\<close> nor \<open>}[]\<close>. The first malformed key raises
  the \<open>ParseError\<close> that quotes it, unless the raw form has returned before. In raw mode
  the first parameter named like the feature that has a value, when no malformed key
  comes before it, ends the loop: the result is \<open>json.loads\<close> of its first value, or the
  exception \<open>json.loads\<close> raises, and the keys after it are not read. Without a malformed
  key the result is, in raw mode with no such parameter, \<open>None\<close>; and, not in raw mode,
  the map from the subkey of every key that starts with the prefix and is not the
  feature's name (the key without the prefix and without the closing \<open>}\<close> or \<open>}[]\<close>) to
  its values, spread when the subkey ends in \<open>.in\<close>; of two keys with one subkey the later
  one counts.
\<close>

theorem extract_object_params_keys:
  fixes name :: string
  defines "malformed \<equiv> \<lambda>k. k \<noteq> name \<and> startswith k (butlast name) \<and>
             \<not> endswith k ''}'' \<and> \<not> endswith k ''}[]''"
    and "subkey \<equiv> \<lambda>k. drop (length (butlast name))
             (take (length k - (if endswith k ''}'' then 1 else 3)) k)"
  shows "(\<forall>pre k vals post.
            qp = pre @ (k, vals) # post \<and> malformed k \<and> (\<forall>p \<in> set pre. \<not> malformed (fst p)) \<and>
            (raw \<longrightarrow> (\<forall>p \<in> set pre. fst p = name \<longrightarrow> snd p = [])) \<longrightarrow>
              extract_object_params jl qp name raw =
                Inl (ParseError (dq @ k @ dq @ '' is not a well-formed filter key.''))) \<and>
         ((\<forall>p \<in> set qp. \<not> malformed (fst p)) \<longrightarrow>
            (\<exists>m. extract_object_params jl qp name False = Inr (Params_map m) \<and>
               map_of m =
                 map_of (rev (map (\<lambda>p. (subkey (fst p),
                                         if endswith (subkey (fst p)) ''.in'' then expand_in (snd p)
                                         else snd p))
                   (filter (\<lambda>p. fst p \<noteq> name \<and> startswith (fst p) (butlast name)) qp))))) \<and>
         (\<forall>pre vals post.
            qp = pre @ (name, vals) # post \<and> vals \<noteq> [] \<and> (\<forall>p \<in> set pre. \<not> malformed (fst p)) \<and>
            (\<forall>p \<in> set pre. fst p = name \<longrightarrow> snd p = []) \<longrightarrow>
              extract_object_params jl qp name True =
                (case jl (hd vals) of Inl e \<Rightarrow> Inl e | Inr j \<Rightarrow> Inr (Raw_object j))) \<and>
         ((\<forall>p \<in> set qp. \<not> malformed (fst p)) \<and> (\<forall>p \<in> set qp. fst p = name \<longrightarrow> snd p = []) \<longrightarrow>
            extract_object_params jl qp name True = Inr No_params)"
proof (intro conjI allI impI)
  fix pre vals post
  assume a: "qp = pre @ (name, vals) # post \<and> vals \<noteq> [] \<and> (\<forall>p \<in> set pre. \<not> malformed (fst p)) \<and>
            (\<forall>p \<in> set pre. fst p = name \<longrightarrow> snd p = [])"
  then have "extract_loop jl name True (pre @ (name, vals) # post) [] =
           (case jl (hd vals) of Inl e \<Rightarrow> Inl e | Inr j \<Rightarrow> Inr (Raw_object j))"
    unfolding malformed_def by (intro extract_loop_raw_return) auto
  with a show "extract_object_params jl qp name True =
                (case jl (hd vals) of Inl e \<Rightarrow> Inl e | Inr j \<Rightarrow> Inr (Raw_object j))"
    by (simp add: extract_object_params_def)
next
  assume a: "(\<forall>p \<in> set qp. \<not> malformed (fst p)) \<and> (\<forall>p \<in> set qp. fst p = name \<longrightarrow> snd p = [])"
  then have "extract_loop jl name True qp [] = Inr No_params"
    unfolding malformed_def by (intro extract_loop_raw_none) auto
  then show "extract_object_params jl qp name True = Inr No_params"
    by (simp add: extract_object_params_def)
next
  fix pre k vals post
  assume a: "qp = pre @ (k, vals) # post \<and> malformed k \<and> (\<forall>p \<in> set pre. \<not> malformed (fst p)) \<and>
            (raw \<longrightarrow> (\<forall>p \<in> set pre. fst p = name \<longrightarrow> snd p = []))"
  then have "extract_loop jl name raw (pre @ (k, vals) # post) [] =
           Inl (ParseError (dq @ k @ dq @ '' is not a well-formed filter key.''))"
    unfolding malformed_def by (intro extract_loop_malformed) auto
  with a show "extract_object_params jl qp name raw =
                Inl (ParseError (dq @ k @ dq @ '' is not a well-formed filter key.''))"
    by (simp add: extract_object_params_def)
next
  assume "\<forall>p \<in> set qp. \<not> malformed (fst p)"
  then have wf: "\<forall>p \<in> set qp. \<not> (fst p \<noteq> name \<and> startswith (fst p) (butlast name) \<and>
             \<not> endswith (fst p) ''}'' \<and> \<not> endswith (fst p) ''}[]'')"
    by (simp add: malformed_def)
  show "\<exists>m. extract_object_params jl qp name False = Inr (Params_map m) \<and>
               map_of m =
                 map_of (rev (map (\<lambda>p. (subkey (fst p),
                                         if endswith (subkey (fst p)) ''.in'' then expand_in (snd p)
                                         else snd p))
                   (filter (\<lambda>p. fst p \<noteq> name \<and> startswith (fst p) (butlast name)) qp)))"
    unfolding extract_object_params_def extract_loop_well_formed [OF wf] subkey_def
    using map_of_foldl_setitem [of
        "\<lambda>p. drop (length (butlast name))
                (take (length (fst p) - (if endswith (fst p) ''}'' then 1 else 3)) (fst p))"
        "\<lambda>p. if endswith (drop (length (butlast name))
                (take (length (fst p) - (if endswith (fst p) ''}'' then 1 else 3)) (fst p))) ''.in''
              then expand_in (snd p) else snd p"
        "[]" "filter (\<lambda>p. fst p \<noteq> name \<and> startswith (fst p) (butlast name)) qp"]
    by simp
qed

theorem extract_object_params_keys_witness:
  "extract_object_params (json_loads (demo_view True :: (obj list, string option) view))
     [(''filter{name}'', [''Rex'']), (''filter{foo'', [''bar''])] FILTER False =
     Inl (ParseError (dq @ ''filter{foo'' @ dq @ '' is not a well-formed filter key.'')) \<and>
   (\<exists>m. extract_object_params (json_loads (demo_view True :: (obj list, string option) view))
          [(''page'', [''2'']), (''filter{name}'', [''Rex'']), (''filter{id.in}[]'', [''[1,2]''])]
          FILTER False = Inr (Params_map m) \<and>
        map_of m ''name'' = Some [''Rex''] \<and> map_of m ''id.in'' = Some [''1'', ''2''] \<and>
        map_of m ''page'' = None) \<and>
   extract_object_params (json_loads (demo_view True :: (obj list, string option) view))
     [(''filter{name}'', [''Rex'']), (''filter{}'', [''{}'', ''x'']), (''filter{foo'', [''bar''])]
     FILTER True = Inr (Raw_object (JDict [])) \<and>
   extract_object_params (json_loads (demo_view True :: (obj list, string option) view))
     [(''filter{}'', [''{name: Rex}''])] FILTER True = Inl (OtherError ''JSONDecodeError'') \<and>
   extract_object_params (json_loads (demo_view True :: (obj list, string option) view))
     [(''page'', [''2'']), (''filter{name}'', [''Rex''])] FILTER True = Inr No_params"
proof -
  let ?jl = "json_loads (demo_view True :: (obj list, string option) view)"
  have a: "extract_object_params ?jl
     [(''filter{name}'', [''Rex'']), (''filter{foo'', [''bar''])] FILTER False =
     Inl (ParseError (dq @ ''filter{foo'' @ dq @ '' is not a well-formed filter key.''))"
    using extract_object_params_keys [where name = FILTER and raw = False and jl = ?jl
        and qp = "[(''filter{name}'', [''Rex''])] @ (''filter{foo'', [''bar'']) # []",
        THEN conjunct1, rule_format,
        of "[(''filter{name}'', [''Rex''])]" "''filter{foo''" "[''bar'']" "[]"]
    by (simp add: FILTER_def startswith_def endswith_def)
  have b: "\<exists>m. extract_object_params ?jl
          [(''page'', [''2'']), (''filter{name}'', [''Rex'']), (''filter{id.in}[]'', [''[1,2]''])]
          FILTER False = Inr (Params_map m) \<and>
        map_of m ''name'' = Some [''Rex''] \<and> map_of m ''id.in'' = Some [''1'', ''2''] \<and>
        map_of m ''page'' = None"
    using extract_object_params_keys [where name = FILTER and raw = False and jl = ?jl
        and qp = "[(''page'', [''2'']), (''filter{name}'', [''Rex'']), (''filter{id.in}[]'', [''[1,2]''])]",
        THEN conjunct2, THEN conjunct1]
    by (auto simp: FILTER_def startswith_def endswith_def)
  have c: "extract_object_params ?jl
     [(''filter{name}'', [''Rex'']), (''filter{}'', [''{}'', ''x'']), (''filter{foo'', [''bar''])]
     FILTER True = Inr (Raw_object (JDict []))"
    using extract_object_params_keys [where name = FILTER and jl = ?jl
        and qp = "[(''filter{name}'', [''Rex''])] @ (FILTER, [''{}'', ''x'']) # [(''filter{foo'', [''bar''])]",
        THEN conjunct2, THEN conjunct2, THEN conjunct1, rule_format,
        of "[(''filter{name}'', [''Rex''])]" "[''{}'', ''x'']" "[(''filter{foo'', [''bar''])]"]
    by (simp add: FILTER_def startswith_def endswith_def demo_view_def)
  have d: "extract_object_params ?jl
     [(''filter{}'', [''{name: Rex}''])] FILTER True = Inl (OtherError ''JSONDecodeError'')"
    using extract_object_params_keys [where name = FILTER and jl = ?jl
        and qp = "[] @ (FILTER, [''{name: Rex}'']) # []",
        THEN conjunct2, THEN conjunct2, THEN conjunct1, rule_format,
        of "[]" "[''{name: Rex}'']" "[]"]
    by (simp add: FILTER_def demo_view_def)
  have e: "extract_object_params ?jl
     [(''page'', [''2'']), (''filter{name}'', [''Rex''])] FILTER True = Inr No_params"
    using extract_object_params_keys [where name = FILTER and jl = ?jl
        and qp = "[(''page'', [''2'']), (''filter{name}'', [''Rex''])]",
        THEN conjunct2, THEN conjunct2, THEN conjunct2]
    by (simp add: FILTER_def startswith_def endswith_def)
  from a b c d e show ?thesis by (intro conjI)
qed

text \<open>
  C8 as stated fails in raw mode: a \<open>filter{}\<close> parameter with a value returns before the
  malformed key \<open>filter{foo\<close> is read, and no \<open>ParseError\<close> is raised.
\<close>

theorem extract_object_params_raw_counterexample:
  "startswith ''filter{foo'' (butlast FILTER) \<and> \<not> endswith ''filter{foo'' ''}'' \<and>
   \<not> endswith ''filter{foo'' ''}[]'' \<and>
   extract_object_params (json_loads (demo_view True :: (obj list, string option) view))
     [(''filter{}'', [''{}'']), (''filter{foo'', [''bar''])] FILTER True =
     Inr (Raw_object (JDict []))"
  by (simp add: extract_object_params_def extract_step_def FILTER_def startswith_def endswith_def
      demo_view_def)

section \<open>Properties of include[] and exclude[]\<close>

lemma split_on_not_Nil: "split_on c str \<noteq> []"
  by (induction str) auto

text \<open>One step of \<open>split_on\<close>, with the rest of the string split once.\<close>

lemma split_on_step:
  "split_on c (x # xs) =
     (if x = c then [] # split_on c xs
      else (case split_on c xs of [] \<Rightarrow> [[x]] | seg # segs \<Rightarrow> (x # seg) # segs))"
  by (cases "split_on c xs") (simp_all add: split_on_not_Nil)








text \<open>
  Beside C6, where an earlier value has bound a name to a boolean: after \<open>include[]=a\<close>
  has bound \<open>a\<close> to \<open>True\<close>, the value \<open>a.b..c\<close>, whose third segment is empty, raises
  \<open>TypeError\<close> at the segment \<open>b\<close>, before the check that raises \<open>ParseError\<close> is reached.
\<close>

theorem get_request_fields_type_error:
  "split_on CHR ''.'' ''a.b..c'' = [''a'', ''b'', [], ''c''] \<and>
   get_request_fields demo_features [(''include[]'', [''a'', ''a.b..c''])] =
     Inl (TypeError bool_not_iterable)"
proof -
  have s: "split_on CHR ''.'' ''a.b..c'' = [''a'', ''b'', [], ''c'']"
    and a: "split_on CHR ''.'' ''a'' = [''a'']"
    by (simp_all add: split_on_step del: split_on.simps(2))
  have "array_feature demo_features [(''include[]'', [''a'', ''a.b..c''])] INCLUDE =
      Some [''a'', ''a.b..c'']"
    by (simp add: array_feature_def demo_features_def getlist_def INCLUDE_def)
  moreover have "add_field True ''a'' [] = Inr [(''a'', RFlag True)]"
    by (simp add: add_field_def a del: split_on.simps)
  moreover have "add_field True ''a.b..c'' [(''a'', RFlag True)] =
      Inl (TypeError bool_not_iterable)"
    by (simp add: add_field_def s del: split_on.simps)
  ultimately have "get_request_fields demo_features [(''include[]'', [''a'', ''a.b..c''])] =
      Inl (TypeError bool_not_iterable)"
    by (simp add: get_request_fields_def add_feature_fields_def)
  with s show ?thesis by (rule conjI)
qed

text \<open>
  Beside C6: a value that descends through a name an earlier value bound to a boolean.
  Its next segment, when it is not empty, makes Python raise \<open>TypeError\<close>: on
  \<open>segment not in current_fields\<close> when more segments follow, on the item assignment
  when it is the last.
\<close>

theorem add_segments_under_flag:
  assumes "map_of m seg = Some (RFlag b)" and "seg \<noteq> []" and "nxt \<noteq> []"
  shows "add_segments inc field (seg # nxt # rest) m =
           Inl (TypeError (if rest = [] then bool_no_item_assignment
                           else bool_not_iterable))"
  using assms by simp

theorem add_segments_under_flag_witness:
  "add_segments False ''a.b'' [''a'', ''b''] [(''a'', RFlag True)] =
     Inl (TypeError bool_no_item_assignment)"
  using add_segments_under_flag [of "[(''a'', RFlag True)]" "''a''" True "''b''" False "''a.b''" "[]"]
  by simp

end
